theory Spec2Isabelle
  imports Main "HOL-Library.Char_ord" "HOL-Library.List_Lexorder" "HOL-Library.AList"
begin

section \<open>Shared data model\<close>

text \<open>
  Go strings are byte sequences and are modelled as \<open>string\<close>.  A Go \<open>error\<close> value is
  modelled by the way it was made: \<open>fmt.Errorf\<close> (with the formatted message),
  \<open>bug.Errorf\<close>, or one of the two errors a \<open>context.Context\<close> reports.  A function
  that returns a value or an error returns a sum, \<open>Inl\<close> the error; where the code gives a
  meaning to the pair \<open>(nil, nil)\<close>, or a claim is about it, the result is a pair of
  options, \<open>None\<close> standing for \<open>nil\<close>.
\<close>

datatype error = Errorf string | BugErrorf string | Canceled | DeadlineExceeded

type_synonym PackageID = string
type_synonym PackagePath = string
type_synonym PackageName = string
type_synonym ImportPath = string
type_synonym URI = string

text \<open>\<open>scanner.Error\<close> and \<open>scanner.ErrorList\<close> of the Go parser.\<close>

record scanner_Error =
  Filename :: string
  Offset :: int
  ErrMsg :: string

type_synonym ErrorList = "scanner_Error list"

text \<open>
  \<open>source.ParsedGoFile\<close>: the fields the code under study reads.  \<open>File\<close> stands for the
  syntax tree (its identity), \<open>ParseErr\<close> is \<open>None\<close> for a \<open>nil\<close> error list.
\<close>

record ParsedGoFile =
  URI :: URI
  File :: nat
  ParseErr :: "ErrorList option"

section \<open>pkg.go: the File accessor\<close>

text \<open>The fields of \<open>pkg\<close> that \<open>File\<close> reads; \<open>pkg_m_ID\<close> is \<open>p.m.ID\<close>.\<close>

record pkg =
  pkg_m_ID :: PackageID
  pkg_goFiles :: "ParsedGoFile list"
  pkg_compiledGoFiles :: "ParsedGoFile list"

text \<open>
  \<open>func (p *pkg) File(uri span.URI) (*source.ParsedGoFile, error)\<close>: two loops, each
  returning at the first file whose URI matches, then the error.
\<close>

definition pkg_File :: "pkg \<Rightarrow> URI \<Rightarrow> ParsedGoFile option \<times> error option" where
  "pkg_File p uri =
     (case find (\<lambda>cgf. URI cgf = uri) (pkg_compiledGoFiles p) of
        Some cgf \<Rightarrow> (Some cgf, None)
      | None \<Rightarrow>
          (case find (\<lambda>gf. URI gf = uri) (pkg_goFiles p) of
             Some gf \<Rightarrow> (Some gf, None)
           | None \<Rightarrow> (None, Some (Errorf (''no parsed file for '' @ uri @ '' in '' @ pkg_m_ID p)))))"

text \<open>\<open>first_at xs uri i\<close>: position \<open>i\<close> is the first one in \<open>xs\<close> whose file has URI \<open>uri\<close>.\<close>

definition first_at :: "ParsedGoFile list \<Rightarrow> URI \<Rightarrow> nat \<Rightarrow> bool" where
  "first_at xs uri i \<longleftrightarrow> i < length xs \<and> URI (xs ! i) = uri \<and> (\<forall>j < i. URI (xs ! j) \<noteq> uri)"

section \<open>check.go: package handles, type-check inputs and the package key\<close>

text \<open>
  \<open>source.Hash\<close> is a \<open>[sha256.Size]byte\<close>, modelled as the string of its bytes.
  A \<open>source.FileHandle\<close> is modelled by what the code reads of it: its URI and the hash of
  its content, which together are its \<open>FileIdentity\<close>.
\<close>

type_synonym Hash = string

record FileIdentity =
  fi_URI :: URI
  fi_Hash :: Hash

record FileHandle =
  fh_URI :: URI
  fh_Hash :: Hash

definition FileIdentity :: "FileHandle \<Rightarrow> FileIdentity" where
  "FileIdentity fh = \<lparr>fi_URI = fh_URI fh, fi_Hash = fh_Hash fh\<rparr>"

text \<open>
  \<open>types.Sizes\<close> is an interface; \<open>computePackageKey\<close> asserts that it holds a
  \<open>*types.StdSizes\<close> and panics on anything else.
\<close>

datatype Sizes = StdSizes (WordSize: int) (MaxAlign: int) | OtherSizes

text \<open>\<open>source.Metadata\<close>; Go maps are association lists, in the order a \<open>range\<close> visits
  them, with distinct keys.  \<open>md_Module_GoVersion\<close> is \<open>None\<close> when \<open>Module\<close> is \<open>nil\<close>.\<close>

record Metadata =
  md_ID :: PackageID
  md_Name :: PackageName
  md_PkgPath :: PackagePath
  md_GoFiles :: "URI list"
  md_CompiledGoFiles :: "URI list"
  md_TypesSizes :: Sizes
  md_DepsByImpPath :: "(ImportPath \<times> PackageID) list"
  md_DepsByPkgPath :: "(PackagePath \<times> PackageID) list"
  md_Module_GoVersion :: "string option"

text \<open>
  \<open>packageHandle\<close> and \<open>typeCheckInputs\<close> refer to each other: a handle holds its
  inputs, and the inputs hold the handles of the direct dependencies.
\<close>

datatype packageHandle =
  PackageHandle (ph_m: Metadata) (ph_inputs: typeCheckInputs) (ph_key: Hash)
and typeCheckInputs =
  TypeCheckInputs
    (tci_id: PackageID)
    (tci_pkgPath: PackagePath)
    (tci_name: PackageName)
    (tci_goFiles: "FileHandle list")
    (tci_compiledGoFiles: "FileHandle list")
    (tci_sizes: Sizes)
    (tci_deps: "(PackageID \<times> packageHandle) list")
    (tci_depsByImpPath: "(ImportPath \<times> PackageID) list")
    (tci_goVersion: string)
    (tci_relatedInformation: bool)
    (tci_linkTarget: string)
    (tci_moduleMode: bool)

text \<open>
  What \<open>computePackageKey\<close> uses and the files at hand do not define: the \<open>String\<close>
  methods through which \<open>fmt\<close> prints a \<open>Hash\<close> and a \<open>FileIdentity\<close>, and SHA-256
  itself.  They are parameters of the model.
\<close>

record Stringers =
  Hash_String :: "Hash \<Rightarrow> string"
  FileIdentity_String :: "FileIdentity \<Rightarrow> string"
  sha256_Sum :: "string \<Rightarrow> Hash"

subsection \<open>The verbs of fmt\<close>

definition digitChar :: "nat \<Rightarrow> char" where
  "digitChar d = char_of (48 + d)"

function natString :: "nat \<Rightarrow> string" where
  "natString n = (if n < 10 then [digitChar n] else natString (n div 10) @ [digitChar (n mod 10)])"
  by pat_completeness auto
termination
  by (relation "measure (\<lambda>n. n)") auto

text \<open>\<open>%d\<close> of an \<open>int\<close> or \<open>int64\<close>, and \<open>%t\<close>.\<close>

definition intString :: "int \<Rightarrow> string" where
  "intString i = (if i < 0 then CHR ''-'' # natString (nat (- i)) else natString (nat i))"

definition boolString :: "bool \<Rightarrow> string" where
  "boolString b = (if b then ''true'' else ''false'')"

definition newline :: string where
  "newline = [CHR 0x0A]"

subsection \<open>computePackageKey\<close>

text \<open>
  The loop over the sorted import paths.  Indexing a Go map with a missing key gives the
  zero value, the empty string.  The format \<open>"import %s %s"\<close> has no newline.
\<close>

definition importLine :: "(ImportPath \<times> PackageID) list \<Rightarrow> ImportPath \<Rightarrow> string" where
  "importLine depsByImpPath impPath =
     ''import '' @ impPath @ '' '' @
       (case map_of depsByImpPath impPath of Some i \<Rightarrow> i | None \<Rightarrow> [])"

text \<open>
  The loop over the sorted dependency IDs.  A missing key would give a \<open>nil\<close> handle,
  and \<open>dep.m\<close> would panic: \<open>None\<close>.
\<close>

fun depLines :: "Stringers \<Rightarrow> (PackageID \<times> packageHandle) list \<Rightarrow> PackageID list \<Rightarrow> string option" where
  "depLines fm deps [] = Some []"
| "depLines fm deps (depID # depIDs) =
     (case map_of deps depID of
        None \<Rightarrow> None
      | Some dep \<Rightarrow>
          (case depLines fm deps depIDs of
             None \<Rightarrow> None
           | Some s \<Rightarrow>
               Some (''dep: '' @ md_PkgPath (ph_m dep) @ '' key:'' @ Hash_String fm (ph_key dep) @
                     newline @ s)))"

text \<open>\<open>fmt.Fprintln(hasher, fh.FileIdentity())\<close> for each file handle.\<close>

definition fileLines :: "Stringers \<Rightarrow> FileHandle list \<Rightarrow> string" where
  "fileLines fm fhs = concat (map (\<lambda>fh. FileIdentity_String fm (FileIdentity fh) @ newline) fhs)"

text \<open>
  Everything \<open>computePackageKey\<close> writes to the hasher, in order; \<open>None\<close> when it panics.
  The keys of the two maps are collected in iteration order and sorted with
  \<open>sort.Strings\<close>, which orders strings bytewise.
\<close>

definition packageKeyStream :: "Stringers \<Rightarrow> typeCheckInputs \<Rightarrow> string option" where
  "packageKeyStream fm inputs =
     (let importPaths = sort (map fst (tci_depsByImpPath inputs));
          depIDs = sort (map fst (tci_deps inputs))
      in case depLines fm (tci_deps inputs) depIDs of
           None \<Rightarrow> None
         | Some depText \<Rightarrow>
             (case tci_sizes inputs of
                OtherSizes \<Rightarrow> None
              | StdSizes wordSize maxAlign \<Rightarrow>
                  Some (''package: '' @ tci_id inputs @ '' '' @ tci_name inputs @ '' '' @
                          tci_pkgPath inputs @ newline @
                        ''go '' @ tci_goVersion inputs @ newline @
                        concat (map (importLine (tci_depsByImpPath inputs)) importPaths) @
                        depText @
                        ''compiledGoFiles: '' @ natString (length (tci_compiledGoFiles inputs)) @
                          newline @
                        fileLines fm (tci_compiledGoFiles inputs) @
                        ''goFiles: '' @ natString (length (tci_goFiles inputs)) @ newline @
                        fileLines fm (tci_goFiles inputs) @
                        ''sizes: '' @ intString wordSize @ '' '' @ intString maxAlign @ newline @
                        ''relatedInformation: '' @ boolString (tci_relatedInformation inputs) @
                          newline @
                        ''linkTarget: '' @ tci_linkTarget inputs @ newline @
                        ''moduleMode: '' @ boolString (tci_moduleMode inputs) @ newline)))"

text \<open>The key is the SHA-256 sum of the stream.\<close>

definition computePackageKey :: "Stringers \<Rightarrow> typeCheckInputs \<Rightarrow> Hash option" where
  "computePackageKey fm inputs = map_option (sha256_Sum fm) (packageKeyStream fm inputs)"

section \<open>check.go: expansion of secondary type errors\<close>

text \<open>
  \<open>types.Error\<close> of go/types: the exported fields and the unexported location fields,
  which a struct copy carries along.  \<open>Fset\<close> stands for the file-set pointer.
\<close>

record types_Error =
  Fset :: nat
  Pos :: int
  Msg :: string
  Soft :: bool
  go116code :: int
  go116start :: int
  go116end :: int

record extendedError =
  primary :: types_Error
  secondaries :: "types_Error list"

text \<open>
  The test of the inner loop of \<open>expandErrors\<close>, negated: the loop goes on while
  \<open>len(spl.Msg) != 0 && spl.Msg[0] == '\t'\<close>.
\<close>

fun startsWithTab :: "string \<Rightarrow> bool" where
  "startsWithTab [] = False"
| "startsWithTab (c # cs) = (c = CHR 0x09)"

text \<open>
  The inner loop \<open>for i++; i < len(errs); i++\<close>, run on the errors after the primary: it
  returns the secondaries it appended (each with \<open>Msg[1:]\<close>) and the errors from the index
  where it stopped.
\<close>

fun collectSecondaries :: "types_Error list \<Rightarrow> types_Error list \<times> types_Error list" where
  "collectSecondaries [] = ([], [])"
| "collectSecondaries (spl # errs) =
     (if \<not> startsWithTab (Msg spl) then ([], spl # errs)
      else (spl\<lparr>Msg := tl (Msg spl)\<rparr> # fst (collectSecondaries errs),
            snd (collectSecondaries errs)))"

text \<open>The body of the loop \<open>for j, secondary := range original.secondaries\<close>.\<close>

definition markThisError :: "nat \<Rightarrow> nat \<times> types_Error \<Rightarrow> types_Error" where
  "markThisError i js =
     (if i = fst js then (snd js)\<lparr>Msg := Msg (snd js) @ '' (this error)''\<rparr> else snd js)"

text \<open>The body of the loop \<open>for i, mainSecondary := range original.secondaries\<close>.\<close>

definition cloneError :: "extendedError \<Rightarrow> bool \<Rightarrow> nat \<times> types_Error \<Rightarrow> extendedError" where
  "cloneError original supportsRelatedInformation im =
     (let mainSecondary = snd im;
          relocatedSecondary = mainSecondary
            \<lparr>Msg := (if supportsRelatedInformation
                      then Msg (primary original) @ '' (see details)''
                      else Msg (primary original) @ '' (this error: '' @ Msg mainSecondary @ '')''),
             Soft := Soft (primary original)\<rparr>
      in \<lparr>primary = relocatedSecondary,
          secondaries = primary original #
            map (markThisError (fst im)) (enumerate 0 (secondaries original))\<rparr>)"

lemma collectSecondaries_length: "length (snd (collectSecondaries errs)) \<le> length errs"
  by (induction errs) auto

function expandErrors :: "types_Error list \<Rightarrow> bool \<Rightarrow> extendedError list" where
  "expandErrors [] supportsRelatedInformation = []"
| "expandErrors (e # errs) supportsRelatedInformation =
     (let original = \<lparr>primary = e, secondaries = fst (collectSecondaries errs)\<rparr>
      in original #
         map (cloneError original supportsRelatedInformation)
             (enumerate 0 (secondaries original)) @
         expandErrors (snd (collectSecondaries errs)) supportsRelatedInformation)"
  by pat_completeness auto
termination
  by (relation "measure (\<lambda>(errs, r). length errs)")
     (auto simp: collectSecondaries_length less_Suc_eq_le)

text \<open>
  The expansion rule in the words of the specification, to compare \<open>expandErrors\<close> with.
  \<open>spec_continuations\<close> are the continuation errors with the leading tab removed;
  \<open>spec_relocated r p cs i\<close> is the additional error located at continuation \<open>i\<close>: the
  continuation with the primary's message (suffixed) and the primary's \<open>Soft\<close> flag, whose
  secondaries are the primary and then all continuations, the one at index \<open>i\<close> marked.
\<close>

definition spec_continuations :: "types_Error list \<Rightarrow> types_Error list" where
  "spec_continuations conts = map (\<lambda>c. c\<lparr>Msg := tl (Msg c)\<rparr>) conts"

definition spec_relocated :: "bool \<Rightarrow> types_Error \<Rightarrow> types_Error list \<Rightarrow> nat \<Rightarrow> extendedError" where
  "spec_relocated r p cs i =
     \<lparr>primary = (cs ! i)
        \<lparr>Msg := Msg p @ (if r then '' (see details)''
                         else '' (this error: '' @ Msg (cs ! i) @ '')''),
         Soft := Soft p\<rparr>,
      secondaries = p # cs[i := (cs ! i)\<lparr>Msg := Msg (cs ! i) @ '' (this error)''\<rparr>]\<rparr>"

section \<open>check.go: the state of a type-checking batch\<close>

text \<open>
  \<open>*types.Package\<close>: either the canonical \<open>types.Unsafe\<close> or a package made by
  \<open>types.NewPackage\<close>, with the packages it imports once it is checked.
\<close>

datatype types_Package =
  Unsafe
| TypesPackage (tp_path: PackagePath) (tp_name: PackageName) (tp_imports: "types_Package list")

definition NewPackage :: "PackagePath \<Rightarrow> PackageName \<Rightarrow> types_Package" where
  "NewPackage path name = TypesPackage path name []"

fun Path :: "types_Package \<Rightarrow> PackagePath" where
  "Path Unsafe = ''unsafe''"
| "Path (TypesPackage path name imps) = path"

text \<open>\<open>source.Diagnostic\<close>: the fields that matter here.\<close>

record Diagnostic =
  dg_URI :: URI
  dg_Source :: string
  dg_Message :: string

text \<open>
  \<open>syntaxPackage\<close>, with the fields that \<open>doTypeCheck\<close> and \<open>typeCheckImpl\<close> assign or
  read (the file set and the \<open>types.Info\<close> maps are left out); \<open>Package\<close> pairs it with
  its metadata.
\<close>

record syntaxPackage =
  sp_id :: PackageID
  sp_types :: types_Package
  sp_goFiles :: "ParsedGoFile list"
  sp_compiledGoFiles :: "ParsedGoFile list"
  sp_parseErrors :: "ErrorList list"
  sp_typeErrors :: "types_Error list"
  sp_diagnostics :: "Diagnostic list"
  sp_hasFixedFiles :: bool
  sp_importMap :: "(PackagePath \<times> types_Package) list"
  sp_methodsets :: string
  sp_xrefs :: string

record Package =
  pk_m :: Metadata
  pk_pkg :: syntaxPackage

text \<open>
  \<open>pkgOrErr\<close> is the pair \<open>(pkg, err)\<close>; both may be \<open>nil\<close>.  A \<open>futurePackage\<close> is
  \<open>Pending\<close> until its \<open>done\<close> channel is closed, and then holds its value.
\<close>

type_synonym pkgOrErr = "types_Package option \<times> error option"

datatype futurePackage = Pending | Done pkgOrErr

text \<open>\<open>importGraph\<close>: the dependency keys and the import results kept across snapshots.\<close>

record importGraph =
  ig_deps :: "(PackageID \<times> Hash) list"
  ig_imports :: "(PackageID \<times> pkgOrErr) list"

text \<open>The calls that the model records, in the order they are made.\<close>

datatype event =
  EvBuildPackageHandle PackageID
| EvFilecacheGet string Hash
| EvParseFiles "URI list"
| EvCheckFiles PackagePath

text \<open>
  Everything the functions of a batch read and write besides their arguments: the state of
  the context (\<open>ctx.Err()\<close>), the package handles of the snapshot, its metadata graph (the metadata of each package and the
  ids of the packages of each file) and the URIs of its overlays, the two
  maps of futures of the batch, the result slice that the \<open>post\<close> function of \<open>TypeCheck\<close>
  fills, and the record of calls.
\<close>

record world =
  ctxErr :: "error option"
  packages :: "PackageID \<rightharpoonup> packageHandle"
  s_meta :: "PackageID \<rightharpoonup> Metadata"
  s_meta_ids :: "URI \<rightharpoonup> PackageID list"
  s_overlays :: "URI list"
  syntaxPackages :: "PackageID \<rightharpoonup> futurePackage"
  importPackages :: "PackageID \<rightharpoonup> futurePackage"
  pkgs :: "Package option list"
  trace :: "event list"

text \<open>
  A computation reads and updates the world and returns a value; it is \<open>None\<close> when the
  call does not return: it waits for a future that nobody completes, it panics, or the
  recursion bound of the model is used up.
\<close>

type_synonym 'a M = "world \<Rightarrow> ('a \<times> world) option"

definition logEvent :: "event \<Rightarrow> world \<Rightarrow> world" where
  "logEvent e w = w\<lparr>trace := trace w @ [e]\<rparr>"

text \<open>\<open>types.Config\<close> as \<open>typesConfig\<close> fills it (the error sink is the caller's).\<close>

record types_Config =
  cfg_Sizes :: Sizes
  cfg_Importer :: "ImportPath \<Rightarrow> pkgOrErr M"
  cfg_IgnoreFuncBodies :: bool
  cfg_GoVersion :: "string option"
  cfg_UsesCgo :: bool

datatype filecacheResult = ErrNotFound | ErrOther error | CacheData string

text \<open>
  The collaborators: what the functions of this file call and the files at hand do not
  define (the file source, the parse cache, the type checker, the diagnostics of parse and
  type errors, the indexes, the file cache, the active packages and the import graph of the
  snapshot, its options), and \<open>importPackage\<close> and \<open>checkPackageForImport\<close>, which drive
  the external importer and checker.  \<open>check_Files\<close> returns the errors that the checker
  reports to the error sink, in order, and the package as checked.  \<open>selectDone\<close> is the
  choice of a \<open>select\<close> whose two cases are ready, one of them \<open>ctx.Done()\<close>: true when
  that case is taken.  \<open>schedule n\<close> is the order in which \<open>n\<close> goroutines of an
  \<open>errgroup\<close> get to run.
\<close>

record collaborators =
  ReadFile :: "URI \<Rightarrow> (error + FileHandle) M"
  parseFiles :: "FileHandle list \<Rightarrow> (error + ParsedGoFile list) M"
  check_Files :: "types_Config \<Rightarrow> ParsedGoFile list \<Rightarrow> types_Package \<Rightarrow> (types_Error list \<times> types_Package) M"
  parseErrorDiagnostics :: "syntaxPackage \<Rightarrow> ErrorList \<Rightarrow> error + Diagnostic list"
  typeErrorDiagnostics :: "bool \<Rightarrow> string \<Rightarrow> syntaxPackage \<Rightarrow> extendedError \<Rightarrow> error + Diagnostic list"
  methodsets_NewIndex :: "types_Package \<Rightarrow> string"
  xrefs_Index :: "ParsedGoFile list \<Rightarrow> types_Package \<Rightarrow> string"
  IsValidImport :: "PackagePath \<Rightarrow> PackagePath \<Rightarrow> bool"
  filecache_Get :: "string \<Rightarrow> Hash \<Rightarrow> filecacheResult M"
  importPackage :: "Metadata \<Rightarrow> string \<Rightarrow> (error + types_Package) M"
  checkPackageForImport :: "packageHandle \<Rightarrow> (error + types_Package) M"
  getActivePackage :: "PackageID \<Rightarrow> Package option M"
  memoizeActivePackage :: "PackageID \<Rightarrow> Package \<Rightarrow> Package option M"
  getImportGraph :: "importGraph option M"
  RelatedInformationSupported :: bool
  LinkTarget :: string
  moduleMode :: bool
  stringers :: Stringers
  fmt_q :: "string \<Rightarrow> string"
  exportDataKind :: string
  selectDone :: "world \<Rightarrow> bool"
  schedule :: "nat \<Rightarrow> nat list"

section \<open>check.go: typesConfig, doTypeCheck and typeCheckImpl\<close>

text \<open>\<open>goVersionRx\<close>, the regular expression \<open>^go([1-9][0-9]*)\.(0|[1-9][0-9]*)$\<close>.\<close>

definition positiveNumber :: "string \<Rightarrow> bool" where
  "positiveNumber s =
     (case s of
        [] \<Rightarrow> False
      | c # cs \<Rightarrow> c \<in> set ''123456789'' \<and> list_all (\<lambda>d. d \<in> set ''0123456789'') cs)"

definition goVersionRx_MatchString :: "string \<Rightarrow> bool" where
  "goVersionRx_MatchString s =
     (take 2 s = ''go'' \<and>
      positiveNumber (takeWhile (\<lambda>c. c \<noteq> CHR ''.'') (drop 2 s)) \<and>
      (case dropWhile (\<lambda>c. c \<noteq> CHR ''.'') (drop 2 s) of
         [] \<Rightarrow> False
       | dot # minor \<Rightarrow> minor = ''0'' \<or> positiveNumber minor))"

definition missingPkgError :: "collaborators \<Rightarrow> string \<Rightarrow> bool \<Rightarrow> error" where
  "missingPkgError c pkgPath modMode =
     (if modMode then Errorf (''no required module provides package '' @ fmt_q c pkgPath)
      else Errorf (''cannot find package '' @ fmt_q c pkgPath @ '' in GOROOT or GOPATH''))"

text \<open>
  The importer that \<open>typesConfig\<close> installs.  \<open>getImport\<close> is \<open>b.getImportPackage\<close>.
\<close>

definition importerFunc :: "collaborators \<Rightarrow> (PackageID \<Rightarrow> pkgOrErr M) \<Rightarrow> typeCheckInputs \<Rightarrow> ImportPath \<Rightarrow> pkgOrErr M" where
  "importerFunc c getImport inputs path w =
     (case map_of (tci_depsByImpPath inputs) path of
        None \<Rightarrow> Some ((None, Some (Errorf (''missing metadata for import of '' @ fmt_q c path))), w)
      | Some i \<Rightarrow>
          (case map_of (tci_deps inputs) i of
             None \<Rightarrow> Some ((None, Some (missingPkgError c path (tci_moduleMode inputs))), w)
           | Some depPH \<Rightarrow>
               if \<not> IsValidImport c (tci_pkgPath inputs) (md_PkgPath (ph_m depPH))
               then Some ((None, Some (Errorf (''invalid use of internal package '' @ fmt_q c path))), w)
               else getImport i w))"

definition typesConfig :: "collaborators \<Rightarrow> (PackageID \<Rightarrow> pkgOrErr M) \<Rightarrow> typeCheckInputs \<Rightarrow> types_Config" where
  "typesConfig c getImport inputs =
     \<lparr>cfg_Sizes = tci_sizes inputs,
      cfg_Importer = importerFunc c getImport inputs,
      cfg_IgnoreFuncBodies = False,
      cfg_GoVersion =
        (if tci_goVersion inputs \<noteq> [] \<and> goVersionRx_MatchString (''go'' @ tci_goVersion inputs)
         then Some (''go'' @ tci_goVersion inputs) else None),
      cfg_UsesCgo = True\<rparr>"

text \<open>\<open>collectDeps\<close>, the closure that fills \<open>pkg.importMap\<close>.\<close>

fun collectDeps :: "types_Package \<Rightarrow> (PackagePath \<times> types_Package) list \<Rightarrow> (PackagePath \<times> types_Package) list" where
  "collectDeps Unsafe importMap =
     (if map_of importMap ''unsafe'' \<noteq> None then importMap
      else importMap @ [(''unsafe'', Unsafe)])"
| "collectDeps (TypesPackage path name imps) importMap =
     (if map_of importMap path \<noteq> None then importMap
      else fold collectDeps imps (importMap @ [(path, TypesPackage path name imps)]))"

definition call_parseFiles :: "collaborators \<Rightarrow> FileHandle list \<Rightarrow> (error + ParsedGoFile list) M" where
  "call_parseFiles c fhs w = parseFiles c fhs (logEvent (EvParseFiles (map fh_URI fhs)) w)"

definition call_check_Files :: "collaborators \<Rightarrow> types_Config \<Rightarrow> ParsedGoFile list \<Rightarrow> types_Package \<Rightarrow> (types_Error list \<times> types_Package) M" where
  "call_check_Files c cfg files tp w = check_Files c cfg files tp (logEvent (EvCheckFiles (Path tp)) w)"

text \<open>The package that \<open>doTypeCheck\<close> starts from: every field not named is zero.\<close>

definition emptySyntaxPackage :: "typeCheckInputs \<Rightarrow> syntaxPackage" where
  "emptySyntaxPackage inputs =
     \<lparr>sp_id = tci_id inputs,
      sp_types = NewPackage (tci_pkgPath inputs) (tci_name inputs),
      sp_goFiles = [], sp_compiledGoFiles = [], sp_parseErrors = [], sp_typeErrors = [],
      sp_diagnostics = [], sp_hasFixedFiles = False, sp_importMap = [],
      sp_methodsets = [], sp_xrefs = []\<rparr>"

definition doTypeCheck :: "collaborators \<Rightarrow> (PackageID \<Rightarrow> pkgOrErr M) \<Rightarrow> typeCheckInputs \<Rightarrow> (error + syntaxPackage) M" where
  "doTypeCheck c getImport inputs w =
     (case call_parseFiles c (tci_goFiles inputs) w of
        None \<Rightarrow> None
      | Some (Inl err, w1) \<Rightarrow> Some (Inl err, w1)
      | Some (Inr goFiles, w1) \<Rightarrow>
          (case call_parseFiles c (tci_compiledGoFiles inputs) w1 of
             None \<Rightarrow> None
           | Some (Inl err, w2) \<Rightarrow> Some (Inl err, w2)
           | Some (Inr compiled, w2) \<Rightarrow>
               (let pkg = (emptySyntaxPackage inputs)
                      \<lparr>sp_goFiles := goFiles, sp_compiledGoFiles := compiled,
                       sp_parseErrors := List.map_filter ParseErr compiled\<rparr>
                in if tci_pkgPath inputs = ''unsafe'' then Some (Inr (pkg\<lparr>sp_types := Unsafe\<rparr>), w2)
                   else if compiled = []
                   then Some (Inl (Errorf (''no parsed files for package '' @ tci_pkgPath inputs)), w2)
                   else
                     (case ctxErr w2 of
                        Some cerr \<Rightarrow> Some (Inl cerr, w2)
                      | None \<Rightarrow>
                          (case call_check_Files c (typesConfig c getImport inputs) compiled
                                  (sp_types pkg) w2 of
                             None \<Rightarrow> None
                           | Some ((errs, tp), w3) \<Rightarrow>
                               (case ctxErr w3 of
                                  Some cerr \<Rightarrow> Some (Inl cerr, w3)
                                | None \<Rightarrow>
                                    Some (Inr (pkg\<lparr>sp_types := tp, sp_typeErrors := errs,
                                                  sp_importMap := collectDeps tp []\<rparr>), w3)))))))"

text \<open>
  The first loop of \<open>typeCheckImpl\<close>, over \<open>pkg.parseErrors\<close>: it appends the diagnostics
  of each parse error to the package and marks their URIs in \<open>unparseable\<close>; a parse error
  whose diagnostics cannot be computed is skipped.
\<close>

fun parseErrorLoop :: "collaborators \<Rightarrow> ErrorList list \<Rightarrow> URI list \<times> syntaxPackage \<Rightarrow> URI list \<times> syntaxPackage" where
  "parseErrorLoop c [] (unparseable, pkg) = (unparseable, pkg)"
| "parseErrorLoop c (e # es) (unparseable, pkg) =
     (case parseErrorDiagnostics c pkg e of
        Inl err \<Rightarrow> parseErrorLoop c es (unparseable, pkg)
      | Inr diags \<Rightarrow>
          parseErrorLoop c es
            (unparseable @ map dg_URI diags,
             pkg\<lparr>sp_diagnostics := sp_diagnostics pkg @ diags\<rparr>))"

text \<open>The second loop, over the expanded type errors.\<close>

fun typeErrorLoop :: "collaborators \<Rightarrow> typeCheckInputs \<Rightarrow> URI list \<Rightarrow> extendedError list \<Rightarrow> syntaxPackage \<Rightarrow> syntaxPackage" where
  "typeErrorLoop c inputs unparseable [] pkg = pkg"
| "typeErrorLoop c inputs unparseable (e # es) pkg =
     (case typeErrorDiagnostics c (tci_moduleMode inputs) (tci_linkTarget inputs) pkg e of
        Inl err \<Rightarrow> typeErrorLoop c inputs unparseable es pkg
      | Inr diags \<Rightarrow>
          typeErrorLoop c inputs unparseable es
            (pkg\<lparr>sp_typeErrors := sp_typeErrors pkg @ [primary e],
                 sp_diagnostics := sp_diagnostics pkg @
                   filter (\<lambda>diag. dg_URI diag \<notin> set unparseable) diags\<rparr>))"

text \<open>
  \<open>typeCheckImpl\<close> after the indexes are built: from \<open>unparseable := map[span.URI]bool{}\<close>
  to the end.
\<close>

definition typeCheckImpl_diagnose :: "collaborators \<Rightarrow> typeCheckInputs \<Rightarrow> syntaxPackage \<Rightarrow> syntaxPackage" where
  "typeCheckImpl_diagnose c inputs pkg0 =
     (let (unparseable, pkg) = parseErrorLoop c (sp_parseErrors pkg0) ([], pkg0)
      in if sp_hasFixedFiles pkg then pkg
         else typeErrorLoop c inputs unparseable
                (expandErrors (sp_typeErrors pkg) (tci_relatedInformation inputs))
                (pkg\<lparr>sp_typeErrors := []\<rparr>))"

definition typeCheckImpl :: "collaborators \<Rightarrow> (PackageID \<Rightarrow> pkgOrErr M) \<Rightarrow> typeCheckInputs \<Rightarrow> (error + syntaxPackage) M" where
  "typeCheckImpl c getImport inputs w =
     (case doTypeCheck c getImport inputs w of
        None \<Rightarrow> None
      | Some (Inl err, w') \<Rightarrow> Some (Inl err, w')
      | Some (Inr pkg, w') \<Rightarrow>
          Some (Inr (typeCheckImpl_diagnose c inputs
                  (pkg\<lparr>sp_methodsets := methodsets_NewIndex c (sp_types pkg),
                       sp_xrefs := xrefs_Index c (sp_compiledGoFiles pkg) (sp_types pkg)\<rparr>)), w'))"



section \<open>check.go: building package handles\<close>

text \<open>The message of an error, as \<open>%v\<close> prints it.\<close>

fun Error :: "error \<Rightarrow> string" where
  "Error (Errorf s) = s"
| "Error (BugErrorf s) = s"
| "Error Canceled = ''context canceled''"
| "Error DeadlineExceeded = ''context deadline exceeded''"

fun readFiles :: "collaborators \<Rightarrow> URI list \<Rightarrow> (error + FileHandle list) M" where
  "readFiles c [] w = Some (Inr [], w)"
| "readFiles c (uri # uris) w =
     (case ReadFile c uri w of
        None \<Rightarrow> None
      | Some (Inl err, w1) \<Rightarrow> Some (Inl err, w1)
      | Some (Inr fh, w1) \<Rightarrow>
          (case readFiles c uris w1 of
             None \<Rightarrow> None
           | Some (Inl err, w2) \<Rightarrow> Some (Inl err, w2)
           | Some (Inr fhs, w2) \<Rightarrow> Some (Inr (fh # fhs), w2)))"

text \<open>
  The loop of \<open>typeCheckInputs\<close> over \<open>m.DepsByPkgPath\<close>.  \<open>build\<close> is
  \<open>s.buildPackageHandle\<close>; \<open>deps\<close> is the map built so far.
\<close>

fun typeCheckInputs_deps :: "(PackageID \<Rightarrow> (error + packageHandle) M) \<Rightarrow> PackageID list \<Rightarrow> (PackageID \<times> packageHandle) list \<Rightarrow> (error + (PackageID \<times> packageHandle) list) M" where
  "typeCheckInputs_deps build [] deps w = Some (Inr deps, w)"
| "typeCheckInputs_deps build (depID # depIDs) deps w =
     (case build depID w of
        None \<Rightarrow> None
      | Some (Inl err, w1) \<Rightarrow>
          (case ctxErr w1 of
             Some cerr \<Rightarrow> Some (Inl cerr, w1)
           | None \<Rightarrow> typeCheckInputs_deps build depIDs deps w1)
      | Some (Inr depHandle, w1) \<Rightarrow>
          typeCheckInputs_deps build depIDs (AList.update depID depHandle deps) w1)"

definition typeCheckInputs :: "collaborators \<Rightarrow> (PackageID \<Rightarrow> (error + packageHandle) M) \<Rightarrow> Metadata \<Rightarrow> (error + typeCheckInputs) M" where
  "typeCheckInputs c build m w =
     (case typeCheckInputs_deps build (map snd (md_DepsByPkgPath m)) [] w of
        None \<Rightarrow> None
      | Some (Inl err, w1) \<Rightarrow> Some (Inl err, w1)
      | Some (Inr deps, w1) \<Rightarrow>
          (case readFiles c (md_GoFiles m) w1 of
             None \<Rightarrow> None
           | Some (Inl err, w2) \<Rightarrow> Some (Inl err, w2)
           | Some (Inr goFiles, w2) \<Rightarrow>
               (case readFiles c (md_CompiledGoFiles m) w2 of
                  None \<Rightarrow> None
                | Some (Inl err, w3) \<Rightarrow> Some (Inl err, w3)
                | Some (Inr compiledGoFiles, w3) \<Rightarrow>
                    Some (Inr (TypeCheckInputs (md_ID m) (md_PkgPath m) (md_Name m)
                                 goFiles compiledGoFiles (md_TypesSizes m) deps
                                 (md_DepsByImpPath m)
                                 (case md_Module_GoVersion m of None \<Rightarrow> [] | Some v \<Rightarrow> v)
                                 (RelatedInformationSupported c) (LinkTarget c) (moduleMode c)),
                          w3))))"

text \<open>
  \<open>buildPackageHandle\<close>, with its recursive calls (made by \<open>typeCheckInputs\<close>) as the
  parameter \<open>build\<close>.  Pointers to metadata are compared by comparing the metadata.
\<close>

definition buildPackageHandle_body :: "collaborators \<Rightarrow> (PackageID \<Rightarrow> (error + packageHandle) M) \<Rightarrow> PackageID \<Rightarrow> (error + packageHandle) M" where
  "buildPackageHandle_body c build i w0 =
     (let w = logEvent (EvBuildPackageHandle i) w0
      in case s_meta w i of
           None \<Rightarrow> Some (Inl (Errorf (''no metadata for '' @ i)), w)
         | Some m \<Rightarrow>
             (case packages w i of
                Some entry \<Rightarrow> Some (Inr entry, w)
              | None \<Rightarrow>
                  (case typeCheckInputs c build m w of
                     None \<Rightarrow> None
                   | Some (Inl err, w1) \<Rightarrow> Some (Inl err, w1)
                   | Some (Inr inputs, w1) \<Rightarrow>
                       (case computePackageKey (stringers c) inputs of
                          None \<Rightarrow> None
                        | Some phKey \<Rightarrow>
                            if s_meta w1 (md_ID m) \<noteq> Some m
                            then Some (Inl (Errorf (''stale metadata for '' @ md_ID m)), w1)
                            else
                              (case packages w1 i of
                                 Some prevPH \<Rightarrow>
                                   if ph_m prevPH \<noteq> m
                                   then Some (Inl (BugErrorf (''existing package handle does not match for '' @ md_ID m)), w1)
                                   else Some (Inr prevPH, w1)
                               | None \<Rightarrow>
                                   Some (Inr (PackageHandle m inputs phKey),
                                         w1\<lparr>packages := (packages w1)(i \<mapsto> PackageHandle m inputs phKey)\<rparr>))))))"

section \<open>check.go: the batch\<close>

text \<open>The fields of \<open>typeCheckBatch\<close> that do not change once the batch is made.\<close>

record typeCheckBatch =
  b_syntaxIndex :: "PackageID \<rightharpoonup> nat"
  b_pre :: "(nat \<Rightarrow> packageHandle \<Rightarrow> bool M) option"
  b_post :: "(nat \<Rightarrow> Package \<Rightarrow> unit M) option"

text \<open>
  An \<open>errgroup.Group\<close>: the tasks started with \<open>g.Go\<close> run, each to its end, in the order
  of the schedule, and \<open>g.Wait\<close> returns the first error that one of them returned.
\<close>

fun runTasks :: "(error option M) list \<Rightarrow> error option \<Rightarrow> error option M" where
  "runTasks [] firstErr w = Some (firstErr, w)"
| "runTasks (t # ts) firstErr w =
     (case t w of
        None \<Rightarrow> None
      | Some (err, w1) \<Rightarrow> runTasks ts (if firstErr = None then err else firstErr) w1)"

definition errgroup_Wait :: "collaborators \<Rightarrow> (error option M) list \<Rightarrow> error option M" where
  "errgroup_Wait c tasks =
     runTasks (map (\<lambda>k. tasks ! k) (filter (\<lambda>k. k < length tasks) (schedule c (length tasks)))) None"

definition awaitPredecessors :: "collaborators \<Rightarrow> (PackageID \<Rightarrow> pkgOrErr M) \<Rightarrow> Metadata \<Rightarrow> error option M" where
  "awaitPredecessors c getImport m =
     errgroup_Wait c
       (map (\<lambda>depID w. case getImport depID w of
                          None \<Rightarrow> None
                        | Some ((p, err), w1) \<Rightarrow> Some (err, w1))
            (map snd (md_DepsByPkgPath m)))"

text \<open>
  \<open>checkPackage\<close>; the goroutine that writes the results to the file cache runs detached
  and is left out.
\<close>

definition checkPackage :: "collaborators \<Rightarrow> (PackageID \<Rightarrow> pkgOrErr M) \<Rightarrow> packageHandle \<Rightarrow> (error + Package) M" where
  "checkPackage c getImport ph w =
     (case typeCheckImpl c getImport (ph_inputs ph) w of
        None \<Rightarrow> None
      | Some (Inl err, w1) \<Rightarrow> Some (Inl err, w1)
      | Some (Inr pkg, w1) \<Rightarrow> Some (Inr \<lparr>pk_m = ph_m ph, pk_pkg = pkg\<rparr>, w1))"

text \<open>
  \<open>handleSyntaxPackage\<close> from the CPU token on: the \<open>select\<close> (a token is free whenever
  the calls run one after the other), the full check and the \<open>post\<close> function.
\<close>

definition handleSyntaxPackage_check :: "collaborators \<Rightarrow> typeCheckBatch \<Rightarrow> (PackageID \<Rightarrow> pkgOrErr M) \<Rightarrow> nat \<Rightarrow> packageHandle \<Rightarrow> pkgOrErr M" where
  "handleSyntaxPackage_check c b getImport i ph w =
     (if ctxErr w \<noteq> None \<and> selectDone c w then Some ((None, ctxErr w), w)
      else
        (case checkPackage c getImport ph w of
           None \<Rightarrow> None
         | Some (Inl err, w1) \<Rightarrow> Some ((None, Some err), w1)
         | Some (Inr syntaxPkg, w1) \<Rightarrow>
             (case b_post b of
                None \<Rightarrow> None
              | Some post \<Rightarrow>
                  (case post i syntaxPkg w1 of
                     None \<Rightarrow> None
                   | Some (u, w2) \<Rightarrow> Some ((Some (sp_types (pk_pkg syntaxPkg)), None), w2)))))"

text \<open>\<open>handleSyntaxPackage\<close> between the creation of its future and the deferred function.\<close>

definition handleSyntaxPackage_run :: "collaborators \<Rightarrow> typeCheckBatch \<Rightarrow> (PackageID \<Rightarrow> (error + packageHandle) M) \<Rightarrow> (PackageID \<Rightarrow> pkgOrErr M) \<Rightarrow> nat \<Rightarrow> PackageID \<Rightarrow> pkgOrErr M" where
  "handleSyntaxPackage_run c b build getImport i ident w =
     (case build ident w of
        None \<Rightarrow> None
      | Some (Inl err, w1) \<Rightarrow> Some ((None, Some err), w1)
      | Some (Inr ph, w1) \<Rightarrow>
          (case (case b_pre b of None \<Rightarrow> Some (True, w1) | Some pre \<Rightarrow> pre i ph w1) of
             None \<Rightarrow> None
           | Some (False, w2) \<Rightarrow> Some ((None, None), w2)
           | Some (True, w2) \<Rightarrow>
               (case awaitPredecessors c getImport (ph_m ph) w2 of
                  None \<Rightarrow> None
                | Some (err, w3) \<Rightarrow>
                    if err \<noteq> None \<and> ctxErr w3 \<noteq> None then Some ((None, ctxErr w3), w3)
                    else handleSyntaxPackage_check c b getImport i ph w3)))"

text \<open>
  \<open>handleSyntaxPackage\<close>: a future that exists is awaited (without a \<open>select\<close> on the
  context), and a call that waits for a pending future does not return.
\<close>

definition handleSyntaxPackage_body :: "collaborators \<Rightarrow> typeCheckBatch \<Rightarrow> (PackageID \<Rightarrow> (error + packageHandle) M) \<Rightarrow> (PackageID \<Rightarrow> pkgOrErr M) \<Rightarrow> nat \<Rightarrow> PackageID \<Rightarrow> pkgOrErr M" where
  "handleSyntaxPackage_body c b build getImport i ident w =
     (case syntaxPackages w ident of
        Some Pending \<Rightarrow> None
      | Some (Done v) \<Rightarrow> Some (v, w)
      | None \<Rightarrow>
          (case handleSyntaxPackage_run c b build getImport i ident
                  (w\<lparr>syntaxPackages := (syntaxPackages w)(ident \<mapsto> Pending)\<rparr>) of
             None \<Rightarrow> None
           | Some (v, w1) \<Rightarrow>
               Some (v, w1\<lparr>syntaxPackages := (syntaxPackages w1)(ident \<mapsto> Done v)\<rparr>)))"

text \<open>\<open>getImportPackage\<close> from the test for \<open>unsafe\<close> on.\<close>

definition getImportPackage_import :: "collaborators \<Rightarrow> (PackageID \<Rightarrow> (error + packageHandle) M) \<Rightarrow> PackageID \<Rightarrow> pkgOrErr M" where
  "getImportPackage_import c build ident w =
     (if ident = ''unsafe'' then Some ((Some Unsafe, None), w)
      else
        (case build ident w of
           None \<Rightarrow> None
         | Some (Inl err, w1) \<Rightarrow> Some ((None, Some err), w1)
         | Some (Inr ph, w1) \<Rightarrow>
             (case filecache_Get c (exportDataKind c) (ph_key ph)
                     (logEvent (EvFilecacheGet (exportDataKind c) (ph_key ph)) w1) of
                None \<Rightarrow> None
              | Some (ErrNotFound, w2) \<Rightarrow>
                  (case checkPackageForImport c ph w2 of
                     None \<Rightarrow> None
                   | Some (Inl err, w3) \<Rightarrow> Some ((None, Some err), w3)
                   | Some (Inr p, w3) \<Rightarrow> Some ((Some p, None), w3))
              | Some (ErrOther err, w2) \<Rightarrow>
                  Some ((None, Some (Errorf (''failed to read cache data for '' @ md_ID (ph_m ph) @
                                              '': '' @ Error err))), w2)
              | Some (CacheData data, w2) \<Rightarrow>
                  (case importPackage c (ph_m ph) data w2 of
                     None \<Rightarrow> None
                   | Some (Inl err, w3) \<Rightarrow> Some ((None, Some err), w3)
                   | Some (Inr p, w3) \<Rightarrow> Some ((Some p, None), w3)))))"

text \<open>\<open>getImportPackage\<close> between the creation of its future and the deferred function.\<close>

definition getImportPackage_run :: "collaborators \<Rightarrow> typeCheckBatch \<Rightarrow> (PackageID \<Rightarrow> (error + packageHandle) M) \<Rightarrow> (nat \<Rightarrow> PackageID \<Rightarrow> pkgOrErr M) \<Rightarrow> PackageID \<Rightarrow> pkgOrErr M" where
  "getImportPackage_run c b build handleSyntax ident w =
     (case b_syntaxIndex b ident of
        None \<Rightarrow> getImportPackage_import c build ident w
      | Some index \<Rightarrow>
          (case handleSyntax index ident w of
             None \<Rightarrow> None
           | Some ((p, err), w1) \<Rightarrow>
               if err \<noteq> None then Some ((None, err), w1)
               else if p \<noteq> None then Some ((p, None), w1)
               else getImportPackage_import c build ident w1))"

text \<open>
  \<open>getImportPackage\<close>: a future that exists is awaited in a \<open>select\<close> with the context.
\<close>

definition getImportPackage_body :: "collaborators \<Rightarrow> typeCheckBatch \<Rightarrow> (PackageID \<Rightarrow> (error + packageHandle) M) \<Rightarrow> (nat \<Rightarrow> PackageID \<Rightarrow> pkgOrErr M) \<Rightarrow> PackageID \<Rightarrow> pkgOrErr M" where
  "getImportPackage_body c b build handleSyntax ident w =
     (case importPackages w ident of
        Some Pending \<Rightarrow>
          (case ctxErr w of None \<Rightarrow> None | Some cerr \<Rightarrow> Some ((None, Some cerr), w))
      | Some (Done v) \<Rightarrow>
          if ctxErr w \<noteq> None \<and> selectDone c w then Some ((None, ctxErr w), w) else Some (v, w)
      | None \<Rightarrow>
          (case getImportPackage_run c b build handleSyntax ident
                  (w\<lparr>importPackages := (importPackages w)(ident \<mapsto> Pending)\<rparr>) of
             None \<Rightarrow> None
           | Some (v, w1) \<Rightarrow>
               Some (v, w1\<lparr>importPackages := (importPackages w1)(ident \<mapsto> Done v)\<rparr>)))"

text \<open>
  The functions call each other; the first argument bounds the depth of the calls, and a
  call that needs more does not return.
\<close>

primrec buildPackageHandle :: "nat \<Rightarrow> collaborators \<Rightarrow> PackageID \<Rightarrow> (error + packageHandle) M" where
  "buildPackageHandle 0 = (\<lambda>c ident w. None)"
| "buildPackageHandle (Suc n) = (\<lambda>c. buildPackageHandle_body c (buildPackageHandle n c))"

primrec getImportPackage :: "nat \<Rightarrow> collaborators \<Rightarrow> typeCheckBatch \<Rightarrow> PackageID \<Rightarrow> pkgOrErr M" where
  "getImportPackage 0 = (\<lambda>c b ident w. None)"
| "getImportPackage (Suc n) =
     (\<lambda>c b. getImportPackage_body c b (buildPackageHandle n c)
        (handleSyntaxPackage_body c b (buildPackageHandle n c) (getImportPackage n c b)))"

definition handleSyntaxPackage :: "nat \<Rightarrow> collaborators \<Rightarrow> typeCheckBatch \<Rightarrow> nat \<Rightarrow> PackageID \<Rightarrow> pkgOrErr M" where
  "handleSyntaxPackage n c b =
     handleSyntaxPackage_body c b (buildPackageHandle n c) (getImportPackage n c b)"

section \<open>check.go: forEachPackage and TypeCheck\<close>

text \<open>The loop \<open>for i, id := range syntaxIDs { b.syntaxIndex[id] = i }\<close>.\<close>

definition makeSyntaxIndex :: "PackageID list \<Rightarrow> PackageID \<rightharpoonup> nat" where
  "makeSyntaxIndex syntaxIDs = fold (\<lambda>(i, ident) index. index(ident \<mapsto> i)) (enumerate 0 syntaxIDs) Map.empty"

text \<open>
  \<open>forEachPackageInternal\<close>: a new batch (its futures start from the imports of the import
  graph, when there is one), one goroutine for each requested package, and the first error.
  The batch it returns is the state of the futures afterwards.
\<close>

definition forEachPackageInternal :: "nat \<Rightarrow> collaborators \<Rightarrow> importGraph option \<Rightarrow> PackageID list \<Rightarrow> PackageID list \<Rightarrow> (nat \<Rightarrow> packageHandle \<Rightarrow> bool M) option \<Rightarrow> (nat \<Rightarrow> Package \<Rightarrow> unit M) option \<Rightarrow> error option M" where
  "forEachPackageInternal n c impGraph importIDs syntaxIDs pre post w =
     (let b = \<lparr>b_syntaxIndex = makeSyntaxIndex syntaxIDs, b_pre = pre, b_post = post\<rparr>
      in errgroup_Wait c
           (map (\<lambda>ident w1. case getImportPackage n c b ident w1 of
                              None \<Rightarrow> None
                            | Some ((p, err), w2) \<Rightarrow> Some (err, w2)) importIDs @
            map (\<lambda>(i, ident) w1. case handleSyntaxPackage n c b i ident w1 of
                                   None \<Rightarrow> None
                                 | Some ((p, err), w2) \<Rightarrow> Some (err, w2)) (enumerate 0 syntaxIDs))
           (w\<lparr>syntaxPackages := Map.empty,
              importPackages :=
                (case impGraph of
                   None \<Rightarrow> Map.empty
                 | Some g \<Rightarrow> map_of (map (\<lambda>(ident, res). (ident, Done res)) (ig_imports g)))\<rparr>))"

definition forEachPackage :: "nat \<Rightarrow> collaborators \<Rightarrow> PackageID list \<Rightarrow> (nat \<Rightarrow> packageHandle \<Rightarrow> bool M) option \<Rightarrow> (nat \<Rightarrow> Package \<Rightarrow> unit M) option \<Rightarrow> error option M" where
  "forEachPackage n c ids pre post w =
     (if ids = [] then Some (None, w)
      else
        (case getImportGraph c w of
           None \<Rightarrow> None
         | Some (impGraph, w1) \<Rightarrow> forEachPackageInternal n c impGraph [] ids pre post w1))"

text \<open>
  The first loop of \<open>TypeCheck\<close>: the active packages fill their slots of \<open>pkgs\<close>, the
  other ids are collected in \<open>needIDs\<close> with their indexes.
\<close>

fun activeLoop :: "collaborators \<Rightarrow> (nat \<times> PackageID) list \<Rightarrow> PackageID list \<times> nat list \<Rightarrow> (PackageID list \<times> nat list) M" where
  "activeLoop c [] (needIDs, indexes) w = Some ((needIDs, indexes), w)"
| "activeLoop c ((i, ident) # rest) (needIDs, indexes) w =
     (case getActivePackage c ident w of
        None \<Rightarrow> None
      | Some (Some pkg, w1) \<Rightarrow>
          activeLoop c rest (needIDs, indexes) (w1\<lparr>pkgs := (pkgs w1)[i := Some pkg]\<rparr>)
      | Some (None, w1) \<Rightarrow> activeLoop c rest (needIDs @ [ident], indexes @ [i]) w1)"

text \<open>The \<open>post\<close> function of \<open>TypeCheck\<close>; an index out of range panics.\<close>

definition TypeCheck_post :: "collaborators \<Rightarrow> nat list \<Rightarrow> nat \<Rightarrow> Package \<Rightarrow> unit M" where
  "TypeCheck_post c indexes i pkg w =
     (case memoizeActivePackage c (md_ID (pk_m pkg)) pkg w of
        None \<Rightarrow> None
      | Some (alt, w1) \<Rightarrow>
          if i < length indexes \<and> indexes ! i < length (pkgs w1)
          then Some ((), w1\<lparr>pkgs := (pkgs w1)
                 [indexes ! i := Some (case alt of
                                         None \<Rightarrow> pkg
                                       | Some a \<Rightarrow> if a \<noteq> pkg then a else pkg)]\<rparr>)
          else None)"

definition TypeCheck :: "nat \<Rightarrow> collaborators \<Rightarrow> PackageID list \<Rightarrow> (Package option list \<times> error option) M" where
  "TypeCheck n c ids w =
     (case activeLoop c (enumerate 0 ids) ([], []) (w\<lparr>pkgs := replicate (length ids) None\<rparr>) of
        None \<Rightarrow> None
      | Some ((needIDs, indexes), w1) \<Rightarrow>
          (case forEachPackage n c needIDs None (Some (TypeCheck_post c indexes)) w1 of
             None \<Rightarrow> None
           | Some (err, w2) \<Rightarrow> Some ((pkgs w2, err), w2)))"

section \<open>Collaborators and a snapshot for the examples\<close>

text \<open>
  Collaborators that never fail: every file can be read and parses without an error, the
  checker reports no error, the file cache is empty, no package is active and there is no
  import graph.  The diagnostics of an error are one diagnostic in the file named by the
  error: a parse error names its file, a type error lies in \<open>a.go\<close> when its position is
  below 100 and in \<open>b.go\<close> otherwise.
\<close>

definition exampleCollaborators :: collaborators where
  "exampleCollaborators =
     \<lparr>ReadFile = (\<lambda>uri w. Some (Inr \<lparr>fh_URI = uri, fh_Hash = ''#'' @ uri\<rparr>, w)),
      parseFiles = (\<lambda>fhs w. Some (Inr (map (\<lambda>fh. \<lparr>URI = fh_URI fh, File = 0, ParseErr = None\<rparr>) fhs), w)),
      check_Files = (\<lambda>cfg files tp w. Some (([], tp), w)),
      parseErrorDiagnostics = (\<lambda>pkg el.
         case el of
           [] \<Rightarrow> Inl (Errorf ''no errors'')
         | e # es \<Rightarrow> Inr [\<lparr>dg_URI = Filename e, dg_Source = ''syntax'', dg_Message = ErrMsg e\<rparr>]),
      typeErrorDiagnostics = (\<lambda>modMode link pkg e.
         Inr [\<lparr>dg_URI = (if Pos (primary e) < 100 then ''a.go'' else ''b.go''),
               dg_Source = ''compiler'', dg_Message = Msg (primary e)\<rparr>]),
      methodsets_NewIndex = (\<lambda>tp. []),
      xrefs_Index = (\<lambda>files tp. []),
      IsValidImport = (\<lambda>pkgPath importPath. True),
      filecache_Get = (\<lambda>kind k w. Some (ErrNotFound, w)),
      importPackage = (\<lambda>m data w. Some (Inr (NewPackage (md_PkgPath m) (md_Name m)), w)),
      checkPackageForImport = (\<lambda>ph w. Some (Inr (NewPackage (md_PkgPath (ph_m ph)) (md_Name (ph_m ph))), w)),
      getActivePackage = (\<lambda>ident w. Some (None, w)),
      memoizeActivePackage = (\<lambda>ident pkg w. Some (Some pkg, w)),
      getImportGraph = (\<lambda>w. Some (None, w)),
      RelatedInformationSupported = True,
      LinkTarget = ''pkg.go.dev'',
      moduleMode = True,
      stringers = \<lparr>Hash_String = (\<lambda>h. h), FileIdentity_String = (\<lambda>f. fi_URI f @ fi_Hash f),
                   sha256_Sum = (\<lambda>s. s)\<rparr>,
      fmt_q = (\<lambda>s. CHR 0x22 # s @ [CHR 0x22]),
      exportDataKind = ''export'',
      selectDone = (\<lambda>w. True),
      schedule = (\<lambda>n. [0..<n])\<rparr>"

text \<open>A package with one file and no dependency, named by its id.\<close>

definition leafMetadata :: "PackageID \<Rightarrow> Metadata" where
  "leafMetadata ident =
     \<lparr>md_ID = ident, md_Name = ident, md_PkgPath = ident, md_GoFiles = [ident @ ''.go''],
      md_CompiledGoFiles = [ident @ ''.go''], md_TypesSizes = StdSizes 8 8,
      md_DepsByImpPath = [], md_DepsByPkgPath = [], md_Module_GoVersion = Some ''1.18''\<rparr>"

text \<open>A live snapshot with the metadata \<open>meta\<close> and nothing built yet.\<close>

definition freshWorld :: "(PackageID \<times> Metadata) list \<Rightarrow> world" where
  "freshWorld meta =
     \<lparr>ctxErr = None, packages = Map.empty, s_meta = map_of meta, s_meta_ids = Map.empty,
      s_overlays = [], syntaxPackages = Map.empty,
      importPackages = Map.empty, pkgs = [], trace = []\<rparr>"








section \<open>check.go: the dependencies of the shared import graph\<close>

text \<open>
  \<open>resolveImportGraph\<close>, from the open packages to the erasure of the volatile
  dependencies.  A \<open>map[PackageID]bool\<close> used as a set is the list of its keys, in
  iteration order.
\<close>

definition openPackagesOf :: "world \<Rightarrow> PackageID list" where
  "openPackagesOf w =
     fold (\<lambda>uri openPackages.
             fold List.insert (case s_meta_ids w uri of None \<Rightarrow> [] | Some ids \<Rightarrow> ids) openPackages)
          (s_overlays w) []"

text \<open>
  The loop over the dependencies of one open package; \<open>build\<close> is
  \<open>s.buildPackageHandle\<close>.  When a handle cannot be built and the context is cancelled,
  the error of the build is returned.
\<close>

fun depKeysLoop :: "(PackageID \<Rightarrow> (error + packageHandle) M) \<Rightarrow> PackageID list \<Rightarrow> (PackageID \<times> Hash) list \<Rightarrow> (error + (PackageID \<times> Hash) list) M" where
  "depKeysLoop build [] deps w = Some (Inr deps, w)"
| "depKeysLoop build (i # ids) deps w =
     (if map_of deps i \<noteq> None then depKeysLoop build ids deps w
      else
        (case build i w of
           None \<Rightarrow> None
         | Some (Inl err, w1) \<Rightarrow>
             (case ctxErr w1 of
                Some cerr \<Rightarrow> Some (Inl err, w1)
              | None \<Rightarrow> depKeysLoop build ids deps w1)
         | Some (Inr ph, w1) \<Rightarrow> depKeysLoop build ids (AList.update i (ph_key ph) deps) w1))"

text \<open>
  The loop over the open packages; \<open>meta\<close> is the metadata captured at the start.  An
  open package without metadata makes \<open>m.DepsByPkgPath\<close> panic.
\<close>

fun openDepsLoop :: "(PackageID \<Rightarrow> (error + packageHandle) M) \<Rightarrow> (PackageID \<rightharpoonup> Metadata) \<Rightarrow> PackageID list \<Rightarrow> (PackageID \<times> Hash) list \<Rightarrow> (error + (PackageID \<times> Hash) list) M" where
  "openDepsLoop build meta [] deps w = Some (Inr deps, w)"
| "openDepsLoop build meta (i # ids) deps w =
     (case meta i of
        None \<Rightarrow> None
      | Some m \<Rightarrow>
          (case depKeysLoop build (map snd (md_DepsByPkgPath m)) deps w of
             None \<Rightarrow> None
           | Some (Inl err, w1) \<Rightarrow> Some (Inl err, w1)
           | Some (Inr deps1, w1) \<Rightarrow> openDepsLoop build meta ids deps1 w1))"

text \<open>
  The closure \<open>isVolatile\<close> with its memo table \<open>volatileDeps\<close>, and the loop over
  \<open>m.DepsByPkgPath\<close> inside it.  The first argument bounds the depth of the recursion,
  which in the code is bounded by the stack only: on a cycle of packages none of which is
  open the recursion does not end, and the result is \<open>None\<close>.
\<close>

fun isVolatile :: "nat \<Rightarrow> (PackageID \<rightharpoonup> Metadata) \<Rightarrow> PackageID list \<Rightarrow> (PackageID \<times> bool) list \<Rightarrow> PackageID \<Rightarrow> (bool \<times> (PackageID \<times> bool) list) option"
  and volatileLoop :: "nat \<Rightarrow> (PackageID \<rightharpoonup> Metadata) \<Rightarrow> PackageID list \<Rightarrow> (PackageID \<times> bool) list \<Rightarrow> PackageID list \<Rightarrow> (bool \<times> (PackageID \<times> bool) list) option" where
  "isVolatile 0 meta openPackages volatileDeps i = None"
| "isVolatile (Suc n) meta openPackages volatileDeps i =
     (case map_of volatileDeps i of
        Some v \<Rightarrow> Some (v, volatileDeps)
      | None \<Rightarrow>
          if i \<in> set openPackages then Some (True, AList.update i True volatileDeps)
          else
            (case meta i of
               None \<Rightarrow> Some (False, AList.update i False volatileDeps)
             | Some m \<Rightarrow>
                 (case volatileLoop n meta openPackages volatileDeps (map snd (md_DepsByPkgPath m)) of
                    None \<Rightarrow> None
                  | Some (volatile, volatileDeps1) \<Rightarrow>
                      Some (volatile, AList.update i volatile volatileDeps1))))"
| "volatileLoop n meta openPackages volatileDeps [] = Some (False, volatileDeps)"
| "volatileLoop n meta openPackages volatileDeps (dep # deps) =
     (case isVolatile n meta openPackages volatileDeps dep of
        None \<Rightarrow> None
      | Some (True, volatileDeps1) \<Rightarrow> Some (True, volatileDeps1)
      | Some (False, volatileDeps1) \<Rightarrow> volatileLoop n meta openPackages volatileDeps1 deps)"

text \<open>The loop \<open>for dep := range deps { isVolatile(dep) }\<close>.\<close>

fun markVolatile :: "nat \<Rightarrow> (PackageID \<rightharpoonup> Metadata) \<Rightarrow> PackageID list \<Rightarrow> (PackageID \<times> bool) list \<Rightarrow> PackageID list \<Rightarrow> (PackageID \<times> bool) list option" where
  "markVolatile n meta openPackages volatileDeps [] = Some volatileDeps"
| "markVolatile n meta openPackages volatileDeps (dep # deps) =
     (case isVolatile n meta openPackages volatileDeps dep of
        None \<Rightarrow> None
      | Some (v, volatileDeps1) \<Rightarrow> markVolatile n meta openPackages volatileDeps1 deps)"

text \<open>The loop \<open>for id, volatile := range volatileDeps { if volatile { delete(deps, id) } }\<close>.\<close>

definition deleteVolatile :: "(PackageID \<times> bool) list \<Rightarrow> (PackageID \<times> Hash) list \<Rightarrow> (PackageID \<times> Hash) list" where
  "deleteVolatile volatileDeps deps =
     fold (\<lambda>(i, volatile) ds. if volatile then AList.delete i ds else ds) volatileDeps deps"

text \<open>
  The map \<open>deps\<close> as \<open>resolveImportGraph\<close> has it after the erasure (\<open>Inl\<close> when it
  returns an error before).
\<close>

definition resolveImportGraph_deps :: "nat \<Rightarrow> (PackageID \<Rightarrow> (error + packageHandle) M) \<Rightarrow> (error + (PackageID \<times> Hash) list) M" where
  "resolveImportGraph_deps n build w =
     (let meta = s_meta w; openPackages = openPackagesOf w
      in case openDepsLoop build meta openPackages [] w of
           None \<Rightarrow> None
         | Some (Inl err, w1) \<Rightarrow> Some (Inl err, w1)
         | Some (Inr deps, w1) \<Rightarrow>
             (case markVolatile n meta openPackages [] (map fst deps) of
                None \<Rightarrow> None
              | Some volatileDeps \<Rightarrow> Some (Inr (deleteVolatile volatileDeps deps), w1)))"

text \<open>
  The words of the claim: the edges of the dependency graph, and a volatile package, one
  that is open or from which an open package can be reached.
\<close>

definition depEdges :: "(PackageID \<rightharpoonup> Metadata) \<Rightarrow> (PackageID \<times> PackageID) set" where
  "depEdges meta = {(a, b). \<exists>m. meta a = Some m \<and> b \<in> snd ` set (md_DepsByPkgPath m)}"

definition volatilePackage :: "(PackageID \<rightharpoonup> Metadata) \<Rightarrow> PackageID list \<Rightarrow> PackageID \<Rightarrow> bool" where
  "volatilePackage meta openPackages i \<longleftrightarrow> (\<exists>q \<in> set openPackages. (i, q) \<in> (depEdges meta)\<^sup>*)"

text \<open>A memo table is sound when each of its entries says whether its package is volatile.\<close>

definition memoSound :: "(PackageID \<rightharpoonup> Metadata) \<Rightarrow> PackageID list \<Rightarrow> (PackageID \<times> bool) list \<Rightarrow> bool" where
  "memoSound meta openPackages volatileDeps \<longleftrightarrow>
     (\<forall>k v. map_of volatileDeps k = Some v \<longrightarrow> (v \<longleftrightarrow> volatilePackage meta openPackages k))"

text \<open>A package is open when one of the overlays is one of its files.\<close>

definition isOpen :: "world \<Rightarrow> PackageID \<Rightarrow> bool" where
  "isOpen w i \<longleftrightarrow> (\<exists>uri \<in> set (s_overlays w). \<exists>ids. s_meta_ids w uri = Some ids \<and> i \<in> set ids)"

text \<open>The snapshot of the example of \<open>resolveImportGraph\<close>: \<open>A\<close> imports \<open>B\<close>, \<open>B\<close>
  imports \<open>C\<close>, and \<open>A\<close> and \<open>B\<close> are open.\<close>

definition abcWorld :: world where
  "abcWorld =
     (freshWorld
        [(''A'', (leafMetadata ''A'')\<lparr>md_DepsByPkgPath := [(''B'', ''B'')]\<rparr>),
         (''B'', (leafMetadata ''B'')\<lparr>md_DepsByPkgPath := [(''C'', ''C'')]\<rparr>),
         (''C'', leafMetadata ''C'')])
     \<lparr>s_meta_ids := [''A.go'' \<mapsto> [''A''], ''B.go'' \<mapsto> [''B''], ''C.go'' \<mapsto> [''C'']],
      s_overlays := [''A.go'', ''B.go'']\<rparr>"

section \<open>check.go: concurrent calls of buildPackageHandle\<close>

text \<open>
  Several goroutines call \<open>buildPackageHandle\<close> on one snapshot.  The two sections of
  the function that hold \<open>s.mu\<close> are atomic; between them the call computes its inputs
  and key without the lock.  Package handles are pointers, modelled as addresses into a
  store of handles; \<open>s.packages\<close> maps an id to such a pointer.  The metadata of the
  snapshot does not change.
\<close>

datatype callState =
  Called
| Building Metadata
| Built nat
| Returned "error + nat"
| Panicked

record snapshotState =
  sn_packages :: "PackageID \<rightharpoonup> nat"
  sn_handles :: "nat \<rightharpoonup> packageHandle"
  sn_calls :: "nat \<rightharpoonup> PackageID \<times> callState"

text \<open>
  The first locked section and the two tests that follow it: the metadata is looked up
  together with the cache entry, and a call without metadata fails before a hit is used.
\<close>

definition firstSection :: "(PackageID \<rightharpoonup> Metadata) \<Rightarrow> (PackageID \<rightharpoonup> nat) \<Rightarrow> PackageID \<Rightarrow> callState" where
  "firstSection meta cache i =
     (case meta i of
        None \<Rightarrow> Returned (Inl (Errorf (''no metadata for '' @ i)))
      | Some m \<Rightarrow>
          (case cache i of
             Some entry \<Rightarrow> Returned (Inr entry)
           | None \<Rightarrow> Building m))"

text \<open>
  The second locked section, for the call \<open>c\<close> of id \<open>i\<close> that has made the handle at
  address \<open>p\<close>: the metadata is checked again, then the cache, and only a missing entry is
  set.
\<close>

definition secondSection :: "(PackageID \<rightharpoonup> Metadata) \<Rightarrow> snapshotState \<Rightarrow> nat \<Rightarrow> PackageID \<Rightarrow> nat \<Rightarrow> snapshotState" where
  "secondSection meta s c i p =
     (case sn_handles s p of
        None \<Rightarrow> s\<lparr>sn_calls := (sn_calls s)(c \<mapsto> (i, Panicked))\<rparr>
      | Some ph \<Rightarrow>
          if meta (md_ID (ph_m ph)) \<noteq> Some (ph_m ph)
          then s\<lparr>sn_calls := (sn_calls s)
                  (c \<mapsto> (i, Returned (Inl (Errorf (''stale metadata for '' @ md_ID (ph_m ph))))))\<rparr>
          else
            (case sn_packages s i of
               Some prev \<Rightarrow>
                 (case sn_handles s prev of
                    None \<Rightarrow> s\<lparr>sn_calls := (sn_calls s)(c \<mapsto> (i, Panicked))\<rparr>
                  | Some prevPH \<Rightarrow>
                      if ph_m prevPH \<noteq> ph_m ph
                      then s\<lparr>sn_calls := (sn_calls s)
                              (c \<mapsto> (i, Returned (Inl (BugErrorf
                                  (''existing package handle does not match for '' @ md_ID (ph_m ph))))))\<rparr>
                      else s\<lparr>sn_calls := (sn_calls s)(c \<mapsto> (i, Returned (Inr prev)))\<rparr>)
             | None \<Rightarrow>
                 s\<lparr>sn_packages := (sn_packages s)(i \<mapsto> p),
                   sn_calls := (sn_calls s)(c \<mapsto> (i, Returned (Inr p)))\<rparr>))"

text \<open>
  What can happen next: a new call \<open>c\<close> for an id; the first locked section of a call;
  the end of the unlocked part of a call, where \<open>typeCheckInputs\<close> has failed or has
  returned inputs from which a new handle is made at an unused address; the second locked
  section of a call.  A step that is not possible in the state is \<open>None\<close>.
\<close>

datatype action =
  Call nat PackageID
| Lookup nat
| Inputs nat "error + nat \<times> typeCheckInputs"
| Insert nat

fun buildStep :: "(PackageID \<rightharpoonup> Metadata) \<Rightarrow> Stringers \<Rightarrow> action \<Rightarrow> snapshotState \<Rightarrow> snapshotState option" where
  "buildStep meta fm (Call c i) s =
     (if sn_calls s c = None then Some (s\<lparr>sn_calls := (sn_calls s)(c \<mapsto> (i, Called))\<rparr>) else None)"
| "buildStep meta fm (Lookup c) s =
     (case sn_calls s c of
        Some (i, Called) \<Rightarrow>
          Some (s\<lparr>sn_calls := (sn_calls s)(c \<mapsto> (i, firstSection meta (sn_packages s) i))\<rparr>)
      | _ \<Rightarrow> None)"
| "buildStep meta fm (Inputs c r) s =
     (case sn_calls s c of
        Some (i, Building m) \<Rightarrow>
          (case r of
             Inl err \<Rightarrow> Some (s\<lparr>sn_calls := (sn_calls s)(c \<mapsto> (i, Returned (Inl err)))\<rparr>)
           | Inr (p, inputs) \<Rightarrow>
               if sn_handles s p \<noteq> None then None
               else
                 (case computePackageKey fm inputs of
                    None \<Rightarrow> Some (s\<lparr>sn_calls := (sn_calls s)(c \<mapsto> (i, Panicked))\<rparr>)
                  | Some k \<Rightarrow>
                      Some (s\<lparr>sn_handles := (sn_handles s)(p \<mapsto> PackageHandle m inputs k),
                              sn_calls := (sn_calls s)(c \<mapsto> (i, Built p))\<rparr>)))
      | _ \<Rightarrow> None)"
| "buildStep meta fm (Insert c) s =
     (case sn_calls s c of
        Some (i, Built p) \<Rightarrow> Some (secondSection meta s c i p)
      | _ \<Rightarrow> None)"

text \<open>An interleaving of the calls is a list of steps.\<close>

fun runSteps :: "(PackageID \<rightharpoonup> Metadata) \<Rightarrow> Stringers \<Rightarrow> action list \<Rightarrow> snapshotState \<Rightarrow> snapshotState option" where
  "runSteps meta fm [] s = Some s"
| "runSteps meta fm (a # as) s =
     (case buildStep meta fm a s of
        None \<Rightarrow> None
      | Some s1 \<Rightarrow> runSteps meta fm as s1)"

text \<open>Every call that has returned a handle for an id has returned the cached one.\<close>

definition returnedAreCached :: "snapshotState \<Rightarrow> bool" where
  "returnedAreCached s \<longleftrightarrow>
     (\<forall>c i p. sn_calls s c = Some (i, Returned (Inr p)) \<longrightarrow> sn_packages s i = Some p)"

section \<open>Reading the result of a call\<close>

lemma case_Some_Inr:
  assumes "case x of Some (Inr a, b) \<Rightarrow> P a b | _ \<Rightarrow> False"
  shows "\<exists>a b. x = Some (Inr a, b) \<and> P a b"
proof (cases x)
  case None
  with assms show ?thesis by simp
next
  case (Some r)
  obtain s b where r: "r = (s, b)" by (cases r)
  show ?thesis
  proof (cases s)
    case (Inl e)
    with assms Some r show ?thesis by simp
  next
    case (Inr a)
    with assms Some r show ?thesis by simp
  qed
qed




section \<open>Properties of the File accessor\<close>

lemma find_uri_None: "find (\<lambda>f. URI f = uri) xs = None \<longleftrightarrow> uri \<notin> URI ` set xs"
  by (auto simp: find_None_iff)

lemma find_uri_Some:
  "find (\<lambda>f. URI f = uri) xs = Some f \<longleftrightarrow> (\<exists>i. first_at xs uri i \<and> f = xs ! i)"
  by (auto simp: find_Some_iff first_at_def)

text \<open>
  Claim C10.  \<open>File\<close> searches the compiled files first and the extra files second and
  returns the first file whose URI matches: a URI among the compiled files yields the first
  such compiled file, whether or not it is also among the extra files; a URI only among the
  extra files yields the first such extra file; the result is never a nil file with a nil
  error; and an error is returned exactly when the URI occurs in neither list.
\<close>

theorem pkg_File_first_match:
  "(uri \<in> URI ` set (pkg_compiledGoFiles p) \<longrightarrow>
      (\<exists>i. first_at (pkg_compiledGoFiles p) uri i \<and>
           pkg_File p uri = (Some (pkg_compiledGoFiles p ! i), None)))
   \<and> (uri \<notin> URI ` set (pkg_compiledGoFiles p) \<and> uri \<in> URI ` set (pkg_goFiles p) \<longrightarrow>
      (\<exists>i. first_at (pkg_goFiles p) uri i \<and> pkg_File p uri = (Some (pkg_goFiles p ! i), None)))
   \<and> pkg_File p uri \<noteq> (None, None)
   \<and> (snd (pkg_File p uri) \<noteq> None \<longleftrightarrow>
        uri \<notin> URI ` set (pkg_compiledGoFiles p) \<and> uri \<notin> URI ` set (pkg_goFiles p))
   \<and> (snd (pkg_File p uri) \<noteq> None \<longrightarrow> fst (pkg_File p uri) = None)"
proof -
  have c: "uri \<in> URI ` set (pkg_compiledGoFiles p) \<longrightarrow>
      (\<exists>i. first_at (pkg_compiledGoFiles p) uri i \<and>
           pkg_File p uri = (Some (pkg_compiledGoFiles p ! i), None))"
  proof
    assume "uri \<in> URI ` set (pkg_compiledGoFiles p)"
    then obtain f where "find (\<lambda>f. URI f = uri) (pkg_compiledGoFiles p) = Some f"
      using find_uri_None [of uri "pkg_compiledGoFiles p"] by (cases "find (\<lambda>f. URI f = uri) (pkg_compiledGoFiles p)") auto
    then show "\<exists>i. first_at (pkg_compiledGoFiles p) uri i \<and>
           pkg_File p uri = (Some (pkg_compiledGoFiles p ! i), None)"
      using find_uri_Some [of uri "pkg_compiledGoFiles p" f] by (auto simp: pkg_File_def)
  qed
  have g: "uri \<notin> URI ` set (pkg_compiledGoFiles p) \<and> uri \<in> URI ` set (pkg_goFiles p) \<longrightarrow>
      (\<exists>i. first_at (pkg_goFiles p) uri i \<and> pkg_File p uri = (Some (pkg_goFiles p ! i), None))"
  proof
    assume a: "uri \<notin> URI ` set (pkg_compiledGoFiles p) \<and> uri \<in> URI ` set (pkg_goFiles p)"
    then have n: "find (\<lambda>f. URI f = uri) (pkg_compiledGoFiles p) = None"
      by (simp add: find_uri_None)
    from a obtain f where "find (\<lambda>f. URI f = uri) (pkg_goFiles p) = Some f"
      using find_uri_None [of uri "pkg_goFiles p"] by (cases "find (\<lambda>f. URI f = uri) (pkg_goFiles p)") auto
    then show "\<exists>i. first_at (pkg_goFiles p) uri i \<and> pkg_File p uri = (Some (pkg_goFiles p ! i), None)"
      using n find_uri_Some [of uri "pkg_goFiles p" f] by (auto simp: pkg_File_def)
  qed
  have nn: "pkg_File p uri \<noteq> (None, None)"
    by (simp add: pkg_File_def split: option.splits)
  have e: "snd (pkg_File p uri) \<noteq> None \<longleftrightarrow>
        uri \<notin> URI ` set (pkg_compiledGoFiles p) \<and> uri \<notin> URI ` set (pkg_goFiles p)"
    by (auto simp: pkg_File_def find_uri_None [symmetric] split: option.splits)
  have x: "snd (pkg_File p uri) \<noteq> None \<longrightarrow> fst (pkg_File p uri) = None"
    by (simp add: pkg_File_def split: option.splits)
  from c g nn e x show ?thesis by blast
qed

theorem pkg_File_first_match_witness:
  "pkg_File \<lparr>pkg_m_ID = ''p'',
      pkg_goFiles = [\<lparr>URI = ''b.go'', File = 3, ParseErr = None\<rparr>,
                 \<lparr>URI = ''a.go'', File = 4, ParseErr = None\<rparr>],
      pkg_compiledGoFiles = [\<lparr>URI = ''a.go'', File = 1, ParseErr = None\<rparr>,
                         \<lparr>URI = ''a.go'', File = 2, ParseErr = None\<rparr>]\<rparr> ''a.go''
     = (Some \<lparr>URI = ''a.go'', File = 1, ParseErr = None\<rparr>, None)
   \<and> pkg_File \<lparr>pkg_m_ID = ''p'',
      pkg_goFiles = [\<lparr>URI = ''b.go'', File = 3, ParseErr = None\<rparr>,
                 \<lparr>URI = ''a.go'', File = 4, ParseErr = None\<rparr>],
      pkg_compiledGoFiles = [\<lparr>URI = ''a.go'', File = 1, ParseErr = None\<rparr>,
                         \<lparr>URI = ''a.go'', File = 2, ParseErr = None\<rparr>]\<rparr> ''b.go''
     = (Some \<lparr>URI = ''b.go'', File = 3, ParseErr = None\<rparr>, None)
   \<and> fst (pkg_File \<lparr>pkg_m_ID = ''p'',
      pkg_goFiles = [\<lparr>URI = ''b.go'', File = 3, ParseErr = None\<rparr>,
                 \<lparr>URI = ''a.go'', File = 4, ParseErr = None\<rparr>],
      pkg_compiledGoFiles = [\<lparr>URI = ''a.go'', File = 1, ParseErr = None\<rparr>,
                         \<lparr>URI = ''a.go'', File = 2, ParseErr = None\<rparr>]\<rparr> ''c.go'') = None"
  using pkg_File_first_match [of "''a.go''" "\<lparr>pkg_m_ID = ''p'',
      pkg_goFiles = [\<lparr>URI = ''b.go'', File = 3, ParseErr = None\<rparr>,
                 \<lparr>URI = ''a.go'', File = 4, ParseErr = None\<rparr>],
      pkg_compiledGoFiles = [\<lparr>URI = ''a.go'', File = 1, ParseErr = None\<rparr>,
                         \<lparr>URI = ''a.go'', File = 2, ParseErr = None\<rparr>]\<rparr>"]
  by (simp add: pkg_File_def)

section \<open>Properties of the package key\<close>

lemma depLines_map_of:
  "map_of deps' = map_of deps \<Longrightarrow> depLines fm deps' depIDs = depLines fm deps depIDs"
  by (induction depIDs) (simp_all cong: option.case_cong)

lemma importLine_map_of:
  "map_of imps' = map_of imps \<Longrightarrow> importLine imps' = importLine imps"
  by (rule ext) (simp add: importLine_def)

lemma sorted_keys_unique:
  fixes al al' :: "(string \<times> 'v) list"
  assumes "distinct (map fst al)" and "distinct (map fst al')" and "set al' = set al"
  shows "sort (map fst al') = sort (map fst al)"
proof (rule sorted_distinct_set_unique)
  show "set (sort (map fst al')) = set (sort (map fst al))"
    using assms(3) by simp
qed (use assms in simp_all)

lemma packageKeyStream_order_independent:
  assumes "distinct (map fst deps)" and "distinct (map fst deps')" and "set deps' = set deps"
    and "distinct (map fst imps)" and "distinct (map fst imps')" and "set imps' = set imps"
  shows "packageKeyStream fm (TypeCheckInputs i p n g c s deps' imps' v r l mm) =
         packageKeyStream fm (TypeCheckInputs i p n g c s deps imps v r l mm)"
proof -
  have d: "map_of deps' = map_of deps"
    using assms(1-3) by (simp add: map_of_inject_set)
  have m: "map_of imps' = map_of imps"
    using assms(4-6) by (simp add: map_of_inject_set)
  have sd: "sort (map fst deps') = sort (map fst deps)"
    using assms(1-3) by (rule sorted_keys_unique)
  have sm: "sort (map fst imps') = sort (map fst imps)"
    using assms(4-6) by (rule sorted_keys_unique)
  show ?thesis
    by (simp add: packageKeyStream_def sd sm depLines_map_of [OF d] importLine_map_of [OF m]
        cong: option.case_cong Sizes.case_cong)
qed

text \<open>
  Claim C2.  The key does not depend on the order in which the dependency map and the
  import map are iterated: two inputs that agree on every other field and whose \<open>deps\<close>
  and \<open>depsByImpPath\<close> hold the same entries (keys distinct, as in a Go map) in any two
  orders get the same key, since the keys of both maps are sorted before they are hashed.
\<close>

theorem computePackageKey_order_independent:
  assumes "distinct (map fst deps)" and "distinct (map fst deps')" and "set deps' = set deps"
    and "distinct (map fst imps)" and "distinct (map fst imps')" and "set imps' = set imps"
  shows "computePackageKey fm (TypeCheckInputs i p n g c s deps' imps' v r l mm) =
         computePackageKey fm (TypeCheckInputs i p n g c s deps imps v r l mm)"
  unfolding computePackageKey_def
  using packageKeyStream_order_independent [OF assms] by simp

theorem computePackageKey_order_independent_witness:
  "computePackageKey
     \<lparr>Hash_String = (\<lambda>h. h), FileIdentity_String = (\<lambda>f. fi_URI f @ fi_Hash f),
      sha256_Sum = (\<lambda>s. s)\<rparr>
     (TypeCheckInputs ''p'' ''p'' ''p'' [] [] (StdSizes 8 8)
        [(''y'', PackageHandle
            \<lparr>md_ID = ''y'', md_Name = ''y'', md_PkgPath = ''y'', md_GoFiles = [],
             md_CompiledGoFiles = [], md_TypesSizes = StdSizes 8 8, md_DepsByImpPath = [],
             md_DepsByPkgPath = [], md_Module_GoVersion = None\<rparr>
            (TypeCheckInputs ''y'' ''y'' ''y'' [] [] (StdSizes 8 8) [] [] [] True [] True) ''k2''),
         (''x'', PackageHandle
            \<lparr>md_ID = ''x'', md_Name = ''x'', md_PkgPath = ''x'', md_GoFiles = [],
             md_CompiledGoFiles = [], md_TypesSizes = StdSizes 8 8, md_DepsByImpPath = [],
             md_DepsByPkgPath = [], md_Module_GoVersion = None\<rparr>
            (TypeCheckInputs ''x'' ''x'' ''x'' [] [] (StdSizes 8 8) [] [] [] True [] True) ''k1'')]
        [(''y'', ''y''), (''x'', ''x'')] ''1.18'' True [] True) =
   computePackageKey
     \<lparr>Hash_String = (\<lambda>h. h), FileIdentity_String = (\<lambda>f. fi_URI f @ fi_Hash f),
      sha256_Sum = (\<lambda>s. s)\<rparr>
     (TypeCheckInputs ''p'' ''p'' ''p'' [] [] (StdSizes 8 8)
        [(''x'', PackageHandle
            \<lparr>md_ID = ''x'', md_Name = ''x'', md_PkgPath = ''x'', md_GoFiles = [],
             md_CompiledGoFiles = [], md_TypesSizes = StdSizes 8 8, md_DepsByImpPath = [],
             md_DepsByPkgPath = [], md_Module_GoVersion = None\<rparr>
            (TypeCheckInputs ''x'' ''x'' ''x'' [] [] (StdSizes 8 8) [] [] [] True [] True) ''k1''),
         (''y'', PackageHandle
            \<lparr>md_ID = ''y'', md_Name = ''y'', md_PkgPath = ''y'', md_GoFiles = [],
             md_CompiledGoFiles = [], md_TypesSizes = StdSizes 8 8, md_DepsByImpPath = [],
             md_DepsByPkgPath = [], md_Module_GoVersion = None\<rparr>
            (TypeCheckInputs ''y'' ''y'' ''y'' [] [] (StdSizes 8 8) [] [] [] True [] True) ''k2'')]
        [(''x'', ''x''), (''y'', ''y'')] ''1.18'' True [] True)"
  by (rule computePackageKey_order_independent) auto

text \<open>
  Claim C1.  The encoding is not unambiguous: the format of an import-map entry,
  \<open>"import %s %s"\<close>, ends without a newline and its fields are not delimited, so an import
  map with the two entries \<open>a \<mapsto> b\<close> and \<open>c \<mapsto> d\<close> and an import map with the single entry
  \<open>a \<mapsto> bimport c d\<close> are written to the hasher as the same bytes, whatever the
  \<open>String\<close> methods and the hash function are.
\<close>

theorem packageKeyStream_collision:
  "packageKeyStream fm
     (TypeCheckInputs ''p'' ''p'' ''p'' [] [] (StdSizes 8 8) []
        [(''a'', ''b''), (''c'', ''d'')] ''1.18'' True [] True) =
   packageKeyStream fm
     (TypeCheckInputs ''p'' ''p'' ''p'' [] [] (StdSizes 8 8) []
        [(''a'', ''bimport c d'')] ''1.18'' True [] True)
   \<and> packageKeyStream fm
     (TypeCheckInputs ''p'' ''p'' ''p'' [] [] (StdSizes 8 8) []
        [(''a'', ''b''), (''c'', ''d'')] ''1.18'' True [] True) \<noteq> None
   \<and> map_of [(''a'', ''b''), (''c'', ''d'')] \<noteq> map_of [(''a'', ''bimport c d'')]
   \<and> TypeCheckInputs ''p'' ''p'' ''p'' [] [] (StdSizes 8 8) []
        [(''a'', ''b''), (''c'', ''d'')] ''1.18'' True [] True \<noteq>
     TypeCheckInputs ''p'' ''p'' ''p'' [] [] (StdSizes 8 8) []
        [(''a'', ''bimport c d'')] ''1.18'' True [] True"
proof -
  have "map_of [(''a'', ''b''), (''c'', ''d'')] ''c'' \<noteq> map_of [(''a'', ''bimport c d'')] ''c''"
    by simp
  then have "map_of [(''a'', ''b''), (''c'', ''d'')] \<noteq> map_of [(''a'', ''bimport c d'')]"
    by metis
  then show ?thesis
    by (simp add: packageKeyStream_def importLine_def)
qed

section \<open>Properties of expandErrors\<close>

lemma collectSecondaries_stop:
  "rest = [] \<or> \<not> startsWithTab (Msg (hd rest)) \<Longrightarrow> collectSecondaries rest = ([], rest)"
  by (cases rest) auto

lemma collectSecondaries_conts:
  "\<forall>c \<in> set conts. startsWithTab (Msg c) \<Longrightarrow> rest = [] \<or> \<not> startsWithTab (Msg (hd rest)) \<Longrightarrow>
   collectSecondaries (conts @ rest) = (spec_continuations conts, rest)"
  by (induction conts) (simp_all add: collectSecondaries_stop spec_continuations_def)

lemma collectSecondaries_append:
  "\<not> startsWithTab (Msg y) \<Longrightarrow>
   collectSecondaries (xs @ y # ys) =
     (fst (collectSecondaries xs), snd (collectSecondaries xs) @ y # ys)"
  by (induction xs) auto

lemma expandErrors_append:
  "\<not> startsWithTab (Msg y) \<Longrightarrow>
   expandErrors (xs @ y # ys) r = expandErrors xs r @ expandErrors (y # ys) r"
proof (induction xs r rule: expandErrors.induct)
  case (1 r)
  then show ?case by simp
next
  case (2 e errs r)
  then show ?case
    by (simp add: collectSecondaries_append Let_def)
qed

lemma markThisError_enumerate:
  "i < length cs \<Longrightarrow>
   map (markThisError i) (enumerate 0 cs) = cs[i := (cs ! i)\<lparr>Msg := Msg (cs ! i) @ '' (this error)''\<rparr>]"
  by (rule nth_equalityI) (auto simp: markThisError_def nth_enumerate_eq nth_list_update)

lemma cloneError_enumerate:
  "map (cloneError \<lparr>primary = p, secondaries = cs\<rparr> r) (enumerate 0 cs) =
   map (spec_relocated r p cs) [0..<length cs]"
  by (rule nth_equalityI)
     (auto simp: cloneError_def spec_relocated_def nth_enumerate_eq markThisError_enumerate Let_def)

lemma expandErrors_first_group:
  assumes "\<forall>c \<in> set conts. startsWithTab (Msg c)"
    and "rest = [] \<or> \<not> startsWithTab (Msg (hd rest))"
  shows "expandErrors (p # conts @ rest) r =
         \<lparr>primary = p, secondaries = spec_continuations conts\<rparr> #
         map (spec_relocated r p (spec_continuations conts)) [0..<length conts] @
         expandErrors rest r"
proof -
  have len: "length (spec_continuations conts) = length conts"
    by (simp add: spec_continuations_def)
  show ?thesis
    using cloneError_enumerate [of p "spec_continuations conts" r]
    by (simp add: collectSecondaries_conts [OF assms] Let_def len)
qed

text \<open>
  Claim C4.  Let the list of type errors hold a primary error \<open>p\<close> (the first error of the
  list, or an error whose message does not start with a tab) followed by the \<open>N\<close>
  continuation errors \<open>conts\<close>, whose messages all start with a tab, and then by nothing or
  by an error that is no continuation.  Then \<open>expandErrors\<close> emits, after the expansion of
  what precedes \<open>p\<close> and before the expansion of what follows the group: the primary unchanged
  with the continuations (tab removed) as its secondaries, and then \<open>N\<close> additional errors,
  the \<open>i\<close>-th being continuation \<open>i\<close> (so located there) with the message of the primary
  suffixed by \<open>(see details)\<close> when related information is supported and by
  \<open>(this error: <message of continuation i, tab removed>)\<close> otherwise, and with the
  secondaries: the primary, then all continuations, the one at index \<open>i\<close> marked
  \<open>(this error)\<close>.
\<close>

theorem expandErrors_group:
  assumes "pre = [] \<or> \<not> startsWithTab (Msg p)"
    and "\<forall>c \<in> set conts. startsWithTab (Msg c)"
    and "rest = [] \<or> \<not> startsWithTab (Msg (hd rest))"
  shows "expandErrors (pre @ p # conts @ rest) r =
         expandErrors pre r @
         \<lparr>primary = p, secondaries = spec_continuations conts\<rparr> #
         map (spec_relocated r p (spec_continuations conts)) [0..<length conts] @
         expandErrors rest r"
proof (cases "pre = []")
  case True
  then show ?thesis
    using expandErrors_first_group [OF assms(2,3)] by simp
next
  case False
  with assms(1) have "\<not> startsWithTab (Msg p)" by simp
  then have "expandErrors (pre @ p # conts @ rest) r =
             expandErrors pre r @ expandErrors (p # conts @ rest) r"
    by (rule expandErrors_append)
  then show ?thesis
    using expandErrors_first_group [OF assms(2,3)] by simp
qed

theorem expandErrors_group_witness:
  "expandErrors
     [\<lparr>Fset = 0, Pos = 1, Msg = ''redeclared'', Soft = False,
        go116code = 0, go116start = 0, go116end = 0\<rparr>,
      \<lparr>Fset = 0, Pos = 2, Msg = CHR 0x09 # ''prev here'', Soft = True,
        go116code = 0, go116start = 0, go116end = 0\<rparr>,
      \<lparr>Fset = 0, Pos = 3, Msg = ''unused'', Soft = True,
        go116code = 0, go116start = 0, go116end = 0\<rparr>] False =
   [\<lparr>primary = \<lparr>Fset = 0, Pos = 1, Msg = ''redeclared'', Soft = False,
        go116code = 0, go116start = 0, go116end = 0\<rparr>,
     secondaries = [\<lparr>Fset = 0, Pos = 2, Msg = ''prev here'', Soft = True,
        go116code = 0, go116start = 0, go116end = 0\<rparr>]\<rparr>,
    \<lparr>primary = \<lparr>Fset = 0, Pos = 2, Msg = ''redeclared (this error: prev here)'', Soft = False,
        go116code = 0, go116start = 0, go116end = 0\<rparr>,
     secondaries = [\<lparr>Fset = 0, Pos = 1, Msg = ''redeclared'', Soft = False,
        go116code = 0, go116start = 0, go116end = 0\<rparr>,
       \<lparr>Fset = 0, Pos = 2, Msg = ''prev here (this error)'', Soft = True,
        go116code = 0, go116start = 0, go116end = 0\<rparr>]\<rparr>,
    \<lparr>primary = \<lparr>Fset = 0, Pos = 3, Msg = ''unused'', Soft = True,
        go116code = 0, go116start = 0, go116end = 0\<rparr>,
     secondaries = []\<rparr>]"
  using expandErrors_group [of "[]"
      "\<lparr>Fset = 0, Pos = 1, Msg = ''redeclared'', Soft = False,
        go116code = 0, go116start = 0, go116end = 0\<rparr>"
      "[\<lparr>Fset = 0, Pos = 2, Msg = CHR 0x09 # ''prev here'', Soft = True,
        go116code = 0, go116start = 0, go116end = 0\<rparr>]"
      "[\<lparr>Fset = 0, Pos = 3, Msg = ''unused'', Soft = True,
        go116code = 0, go116start = 0, go116end = 0\<rparr>]" False]
  by (simp add: spec_continuations_def spec_relocated_def)

section \<open>Properties of typeCheckImpl\<close>


lemma parseErrorLoop_only_diagnostics:
  "snd (parseErrorLoop c es (u, p)) =
   p\<lparr>sp_diagnostics := sp_diagnostics (snd (parseErrorLoop c es (u, p)))\<rparr>"
proof (induction es arbitrary: u p)
  case Nil
  then show ?case by simp
next
  case (Cons e es)
  show ?case
  proof (cases "parseErrorDiagnostics c p e")
    case (Inl err)
    then show ?thesis using Cons.IH [of u p] by simp
  next
    case (Inr diags)
    then show ?thesis
      using Cons.IH [of "u @ map dg_URI diags" "p\<lparr>sp_diagnostics := sp_diagnostics p @ diags\<rparr>"]
      by simp
  qed
qed

text \<open>
  In the code at hand nothing assigns \<open>hasFixedFiles\<close>: the package that \<open>doTypeCheck\<close>
  returns never has it set, so \<open>typeCheckImpl\<close> always goes on to the type errors.
\<close>

lemma doTypeCheck_hasFixedFiles:
  "doTypeCheck c getImport inputs w = Some (Inr pkg, w') \<Longrightarrow> \<not> sp_hasFixedFiles pkg"
  by (auto simp: doTypeCheck_def Let_def emptySyntaxPackage_def
      split: option.splits sum.splits prod.splits if_splits)






text \<open>
  Nothing assigns \<open>hasFixedFiles\<close>, so no package that \<open>typeCheckImpl\<close> returns has it set,
  whatever the parser returned: the test of the flag in \<open>typeCheckImpl\<close> never succeeds.
\<close>

lemma typeCheckImpl_diagnose_hasFixedFiles:
  "sp_hasFixedFiles (typeCheckImpl_diagnose c inputs p) = sp_hasFixedFiles p"
proof -
  obtain u q where l: "parseErrorLoop c (sp_parseErrors p) ([], p) = (u, q)"
    by (cases "parseErrorLoop c (sp_parseErrors p) ([], p)")
  have q: "q = p\<lparr>sp_diagnostics := sp_diagnostics q\<rparr>"
    using parseErrorLoop_only_diagnostics [of c "sp_parseErrors p" "[]" p] l by simp
  have f: "sp_hasFixedFiles q = sp_hasFixedFiles p"
    by (subst q) simp
  have t: "sp_hasFixedFiles (typeErrorLoop c inputs u es r) = sp_hasFixedFiles r" for es r
    by (induction es arbitrary: r) (simp_all split: sum.splits)
  show ?thesis
    by (simp add: typeCheckImpl_diagnose_def l f t)
qed

lemma typeCheckImpl_never_fixed:
  assumes "typeCheckImpl c getImport inputs w = Some (Inr pkg, w')"
  shows "\<not> sp_hasFixedFiles pkg"
proof -
  from assms obtain p where d: "doTypeCheck c getImport inputs w = Some (Inr p, w')"
    and r: "pkg = typeCheckImpl_diagnose c inputs
                    (p\<lparr>sp_methodsets := methodsets_NewIndex c (sp_types p),
                       sp_xrefs := xrefs_Index c (sp_compiledGoFiles p) (sp_types p)\<rparr>)"
    by (auto simp: typeCheckImpl_def split: option.splits sum.splits prod.splits)
  from doTypeCheck_hasFixedFiles [OF d] show ?thesis
    by (simp add: r typeCheckImpl_diagnose_hasFixedFiles)
qed




section \<open>Properties of the batch: the package unsafe\<close>

lemma typeCheckImpl_diagnose_no_type_errors:
  assumes "sp_typeErrors p = []" and "\<not> sp_hasFixedFiles p"
  shows "typeCheckImpl_diagnose c inputs p = snd (parseErrorLoop c (sp_parseErrors p) ([], p))"
proof -
  obtain u q where l: "parseErrorLoop c (sp_parseErrors p) ([], p) = (u, q)"
    by (cases "parseErrorLoop c (sp_parseErrors p) ([], p)")
  have q: "q = p\<lparr>sp_diagnostics := sp_diagnostics q\<rparr>"
    using parseErrorLoop_only_diagnostics [of c "sp_parseErrors p" "[]" p] l by simp
  have "sp_typeErrors q = []" and "\<not> sp_hasFixedFiles q"
    using assms by (subst q, simp)+
  moreover from this have "q\<lparr>sp_typeErrors := []\<rparr> = q"
    by (cases q) simp
  ultimately show ?thesis
    by (simp add: typeCheckImpl_diagnose_def l)
qed

lemma doTypeCheck_unsafe:
  assumes "tci_pkgPath inputs = ''unsafe''"
    and "call_parseFiles c (tci_goFiles inputs) w = Some (Inr goFiles, w1)"
    and "call_parseFiles c (tci_compiledGoFiles inputs) w1 = Some (Inr compiled, w2)"
  shows "doTypeCheck c getImport inputs w =
         Some (Inr ((emptySyntaxPackage inputs)
                 \<lparr>sp_goFiles := goFiles, sp_compiledGoFiles := compiled,
                  sp_parseErrors := List.map_filter ParseErr compiled, sp_types := Unsafe\<rparr>), w2)"
  using assms by (simp add: doTypeCheck_def Let_def)

lemma getImportPackage_body_unsafe:
  assumes "b_syntaxIndex b ''unsafe'' = None" and "importPackages w ''unsafe'' = None"
  shows "getImportPackage_body c b build handleSyntax ''unsafe'' w =
         Some ((Some Unsafe, None),
               w\<lparr>importPackages := (importPackages w)(''unsafe'' \<mapsto> Done (Some Unsafe, None))\<rparr>)"
  using assms
  by (simp add: getImportPackage_body_def getImportPackage_run_def getImportPackage_import_def)

lemma getImportPackage_body_unsafe_checked:
  assumes "importPackages w ''unsafe'' = None" and "b_syntaxIndex b ''unsafe'' = Some i"
    and "syntaxPackages w ''unsafe'' = Some (Done (Some Unsafe, None)) \<or>
         syntaxPackages w ''unsafe'' = Some (Done (None, None))"
  shows "getImportPackage_body c b build (handleSyntaxPackage_body c b build' getImport) ''unsafe'' w =
         Some ((Some Unsafe, None),
               w\<lparr>importPackages := (importPackages w)(''unsafe'' \<mapsto> Done (Some Unsafe, None))\<rparr>)"
  using assms
  by (auto simp: getImportPackage_body_def getImportPackage_run_def getImportPackage_import_def
      handleSyntaxPackage_body_def)

lemma getImportPackage_body_done:
  assumes "importPackages w ident = Some (Done v)" and "ctxErr w = None \<or> \<not> selectDone c w"
  shows "getImportPackage_body c b build handleSyntax ident w = Some (v, w)"
  using assms by (auto simp: getImportPackage_body_def)

text \<open>
  For a package whose path is \<open>unsafe\<close>, \<open>doTypeCheck\<close> and \<open>typeCheckImpl\<close> do not
  depend on the type checker nor on the diagnostics of type errors, and a package that
  they return has the types \<open>types.Unsafe\<close> and no type error.
\<close>

lemma doTypeCheck_unsafe_checker:
  assumes "tci_pkgPath inputs = ''unsafe''"
  shows "doTypeCheck (c\<lparr>check_Files := chk, typeErrorDiagnostics := ted\<rparr>) getImport inputs w =
         doTypeCheck c getImport inputs w"
  using assms
  by (simp add: doTypeCheck_def call_parseFiles_def Let_def
      cong: option.case_cong sum.case_cong prod.case_cong)

lemma doTypeCheck_unsafe_result:
  assumes "tci_pkgPath inputs = ''unsafe''"
    and "doTypeCheck c getImport inputs w = Some (Inr pkg, w')"
  shows "\<exists>goFiles w1.
           call_parseFiles c (tci_goFiles inputs) w = Some (Inr goFiles, w1) \<and>
           call_parseFiles c (tci_compiledGoFiles inputs) w1 = Some (Inr (sp_compiledGoFiles pkg), w') \<and>
           pkg = (emptySyntaxPackage inputs)
                   \<lparr>sp_goFiles := goFiles, sp_compiledGoFiles := sp_compiledGoFiles pkg,
                    sp_parseErrors := List.map_filter ParseErr (sp_compiledGoFiles pkg),
                    sp_types := Unsafe\<rparr>"
  using assms
  by (auto simp: doTypeCheck_def Let_def split: option.splits sum.splits prod.splits)

lemma parseErrorLoop_checker:
  "parseErrorLoop (c\<lparr>check_Files := chk, typeErrorDiagnostics := ted\<rparr>) es (u, p) =
   parseErrorLoop c es (u, p)"
  by (induction es arbitrary: u p) (simp_all cong: sum.case_cong)

lemma typeCheckImpl_unsafe_result:
  assumes u: "tci_pkgPath inputs = ''unsafe''"
    and d: "doTypeCheck c getImport inputs w = Some (Inr p, w')"
  shows "typeCheckImpl c getImport inputs w =
         Some (Inr (snd (parseErrorLoop c (sp_parseErrors p)
                      ([], p\<lparr>sp_methodsets := methodsets_NewIndex c (sp_types p),
                              sp_xrefs := xrefs_Index c (sp_compiledGoFiles p) (sp_types p)\<rparr>))), w')"
proof -
  let ?q = "p\<lparr>sp_methodsets := methodsets_NewIndex c (sp_types p),
               sp_xrefs := xrefs_Index c (sp_compiledGoFiles p) (sp_types p)\<rparr>"
  from doTypeCheck_unsafe_result [OF u d] obtain goFiles where
    p: "p = (emptySyntaxPackage inputs)
                   \<lparr>sp_goFiles := goFiles, sp_compiledGoFiles := sp_compiledGoFiles p,
                    sp_parseErrors := List.map_filter ParseErr (sp_compiledGoFiles p),
                    sp_types := Unsafe\<rparr>"
    by blast
  have "sp_typeErrors p = []" and "\<not> sp_hasFixedFiles p"
    by (subst p, simp add: emptySyntaxPackage_def)+
  then have q: "sp_typeErrors ?q = []" "\<not> sp_hasFixedFiles ?q"
    by simp_all
  show ?thesis
    using typeCheckImpl_diagnose_no_type_errors [OF q, of c inputs]
    by (simp add: typeCheckImpl_def d)
qed

lemma typeCheckImpl_unsafe_checker:
  assumes u: "tci_pkgPath inputs = ''unsafe''"
  shows "typeCheckImpl (c\<lparr>check_Files := chk, typeErrorDiagnostics := ted\<rparr>) getImport inputs w =
         typeCheckImpl c getImport inputs w"
proof -
  let ?c = "c\<lparr>check_Files := chk, typeErrorDiagnostics := ted\<rparr>"
  have e: "doTypeCheck ?c getImport inputs w = doTypeCheck c getImport inputs w"
    by (rule doTypeCheck_unsafe_checker [OF u])
  show ?thesis
  proof (cases "doTypeCheck c getImport inputs w")
    case None
    then show ?thesis using e by (simp add: typeCheckImpl_def)
  next
    case (Some r)
    obtain s w' where r: "r = (s, w')" by (cases r)
    show ?thesis
    proof (cases s)
      case (Inl err)
      with Some r e show ?thesis by (simp add: typeCheckImpl_def)
    next
      case (Inr p)
      with Some r have d: "doTypeCheck c getImport inputs w = Some (Inr p, w')" by simp
      with e have d': "doTypeCheck ?c getImport inputs w = Some (Inr p, w')" by simp
      show ?thesis
        using typeCheckImpl_unsafe_result [OF u d] typeCheckImpl_unsafe_result [OF u d']
        by (simp add: parseErrorLoop_checker)
    qed
  qed
qed

text \<open>
  Claim C9, as amended.  \<open>getImportPackage\<close> with the id \<open>unsafe\<close> returns
  \<open>types.Unsafe\<close>, builds no package handle and records no call (of \<open>buildPackageHandle\<close>,
  of the file cache, of the parser or of the checker) in three cases.  First, when the
  batch holds no import future for \<open>unsafe\<close> and \<open>unsafe\<close> is not one of the packages that
  it was asked to check: the call changes nothing but its own future, which it completes
  with \<open>types.Unsafe\<close>.  Second, when the batch holds no import future for \<open>unsafe\<close>,
  \<open>unsafe\<close> is one of the packages that it was asked to check, and the check is already
  completed, with \<open>types.Unsafe\<close> or with no package and no error (the \<open>pre\<close> function
  skipped it): again the call changes nothing but its own future.  Third, in every batch,
  when the import future of \<open>unsafe\<close> is completed with \<open>types.Unsafe\<close> and the \<open>select\<close>
  does not take the case of a cancelled context: the call changes nothing at all.

  And a full check of a package whose path is \<open>unsafe\<close> does not depend on the type
  checker nor on the diagnostics of type errors; a package that it returns has the types
  \<open>types.Unsafe\<close> and no type error, in the world as the two calls of the parser left it;
  and it returns one whenever the two file lists are parsed.
\<close>

theorem unsafe_sentinel:
  "(b_syntaxIndex b ''unsafe'' = None \<and> importPackages w ''unsafe'' = None \<longrightarrow>
      (\<exists>w'. getImportPackage (Suc n) c b ''unsafe'' w = Some ((Some Unsafe, None), w') \<and>
            w' = w\<lparr>importPackages := (importPackages w)(''unsafe'' \<mapsto> Done (Some Unsafe, None))\<rparr> \<and>
            trace w' = trace w \<and> packages w' = packages w))
   \<and> (importPackages w ''unsafe'' = None \<and> b_syntaxIndex b ''unsafe'' = Some i \<and>
       (syntaxPackages w ''unsafe'' = Some (Done (Some Unsafe, None)) \<or>
        syntaxPackages w ''unsafe'' = Some (Done (None, None))) \<longrightarrow>
      getImportPackage (Suc n) c b ''unsafe'' w =
        Some ((Some Unsafe, None),
              w\<lparr>importPackages := (importPackages w)(''unsafe'' \<mapsto> Done (Some Unsafe, None))\<rparr>))
   \<and> (importPackages w ''unsafe'' = Some (Done (Some Unsafe, None)) \<and>
       (ctxErr w = None \<or> \<not> selectDone c w) \<longrightarrow>
      getImportPackage (Suc n) c b ''unsafe'' w = Some ((Some Unsafe, None), w))
   \<and> (tci_pkgPath inputs = ''unsafe'' \<longrightarrow>
      typeCheckImpl (c\<lparr>check_Files := chk, typeErrorDiagnostics := ted\<rparr>) getImport inputs w =
      typeCheckImpl c getImport inputs w)
   \<and> (tci_pkgPath inputs = ''unsafe'' \<and>
       typeCheckImpl c getImport inputs w = Some (Inr pkg, w') \<longrightarrow>
      sp_types pkg = Unsafe \<and> sp_typeErrors pkg = [] \<and>
      (\<exists>goFiles w1.
          call_parseFiles c (tci_goFiles inputs) w = Some (Inr goFiles, w1) \<and>
          call_parseFiles c (tci_compiledGoFiles inputs) w1 = Some (Inr (sp_compiledGoFiles pkg), w')))
   \<and> (tci_pkgPath inputs = ''unsafe'' \<and>
       call_parseFiles c (tci_goFiles inputs) w = Some (Inr goFiles, w1) \<and>
       call_parseFiles c (tci_compiledGoFiles inputs) w1 = Some (Inr compiled, w2) \<longrightarrow>
      (\<exists>pkg. typeCheckImpl c getImport inputs w = Some (Inr pkg, w2) \<and>
             sp_types pkg = Unsafe \<and> sp_typeErrors pkg = []))"
proof (intro conjI impI)
  assume "b_syntaxIndex b ''unsafe'' = None \<and> importPackages w ''unsafe'' = None"
  then show "\<exists>w'. getImportPackage (Suc n) c b ''unsafe'' w = Some ((Some Unsafe, None), w') \<and>
            w' = w\<lparr>importPackages := (importPackages w)(''unsafe'' \<mapsto> Done (Some Unsafe, None))\<rparr> \<and>
            trace w' = trace w \<and> packages w' = packages w"
    by (simp add: getImportPackage_body_unsafe)
next
  assume "importPackages w ''unsafe'' = None \<and> b_syntaxIndex b ''unsafe'' = Some i \<and>
       (syntaxPackages w ''unsafe'' = Some (Done (Some Unsafe, None)) \<or>
        syntaxPackages w ''unsafe'' = Some (Done (None, None)))"
  then show "getImportPackage (Suc n) c b ''unsafe'' w =
        Some ((Some Unsafe, None),
              w\<lparr>importPackages := (importPackages w)(''unsafe'' \<mapsto> Done (Some Unsafe, None))\<rparr>)"
    by (simp add: getImportPackage_body_unsafe_checked)
next
  assume "importPackages w ''unsafe'' = Some (Done (Some Unsafe, None)) \<and>
       (ctxErr w = None \<or> \<not> selectDone c w)"
  then show "getImportPackage (Suc n) c b ''unsafe'' w = Some ((Some Unsafe, None), w)"
    by (simp add: getImportPackage_body_done)
next
  assume "tci_pkgPath inputs = ''unsafe''"
  then show "typeCheckImpl (c\<lparr>check_Files := chk, typeErrorDiagnostics := ted\<rparr>) getImport inputs w =
      typeCheckImpl c getImport inputs w"
    by (rule typeCheckImpl_unsafe_checker)
next
  assume a: "tci_pkgPath inputs = ''unsafe'' \<and>
       typeCheckImpl c getImport inputs w = Some (Inr pkg, w')"
  then obtain p where d: "doTypeCheck c getImport inputs w = Some (Inr p, w')"
    by (auto simp: typeCheckImpl_def split: option.splits sum.splits prod.splits)
  let ?q = "p\<lparr>sp_methodsets := methodsets_NewIndex c (sp_types p),
               sp_xrefs := xrefs_Index c (sp_compiledGoFiles p) (sp_types p)\<rparr>"
  from a have u: "tci_pkgPath inputs = ''unsafe''" ..
  from doTypeCheck_unsafe_result [OF u d] obtain goFiles w1 where
    g: "call_parseFiles c (tci_goFiles inputs) w = Some (Inr goFiles, w1)"
       "call_parseFiles c (tci_compiledGoFiles inputs) w1 = Some (Inr (sp_compiledGoFiles p), w')"
    and p: "p = (emptySyntaxPackage inputs)
                   \<lparr>sp_goFiles := goFiles, sp_compiledGoFiles := sp_compiledGoFiles p,
                    sp_parseErrors := List.map_filter ParseErr (sp_compiledGoFiles p),
                    sp_types := Unsafe\<rparr>"
    by blast
  have pf: "sp_typeErrors p = []" "sp_types p = Unsafe"
    by (subst p, simp add: emptySyntaxPackage_def)+
  from a typeCheckImpl_unsafe_result [OF u d]
  have r: "pkg = snd (parseErrorLoop c (sp_parseErrors p) ([], ?q))"
    by simp
  have s: "snd (parseErrorLoop c (sp_parseErrors p) ([], ?q)) =
           ?q\<lparr>sp_diagnostics := sp_diagnostics (snd (parseErrorLoop c (sp_parseErrors p) ([], ?q)))\<rparr>"
    by (rule parseErrorLoop_only_diagnostics)
  have f: "sp_types pkg = Unsafe" "sp_typeErrors pkg = []" "sp_compiledGoFiles pkg = sp_compiledGoFiles p"
    unfolding r by (subst s, simp add: pf)+
  from f(1) show "sp_types pkg = Unsafe" .
  from f(2) show "sp_typeErrors pkg = []" .
  from g f(3) show "\<exists>goFiles w1.
          call_parseFiles c (tci_goFiles inputs) w = Some (Inr goFiles, w1) \<and>
          call_parseFiles c (tci_compiledGoFiles inputs) w1 = Some (Inr (sp_compiledGoFiles pkg), w')"
    by auto
next
  assume a: "tci_pkgPath inputs = ''unsafe'' \<and>
       call_parseFiles c (tci_goFiles inputs) w = Some (Inr goFiles, w1) \<and>
       call_parseFiles c (tci_compiledGoFiles inputs) w1 = Some (Inr compiled, w2)"
  let ?p = "(emptySyntaxPackage inputs)
                 \<lparr>sp_goFiles := goFiles, sp_compiledGoFiles := compiled,
                  sp_parseErrors := List.map_filter ParseErr compiled, sp_types := Unsafe\<rparr>"
  let ?q = "?p\<lparr>sp_methodsets := methodsets_NewIndex c (sp_types ?p),
               sp_xrefs := xrefs_Index c (sp_compiledGoFiles ?p) (sp_types ?p)\<rparr>"
  from a have u: "tci_pkgPath inputs = ''unsafe''" ..
  have d: "doTypeCheck c getImport inputs w = Some (Inr ?p, w2)"
    using a by (simp add: doTypeCheck_unsafe)
  have r: "typeCheckImpl c getImport inputs w =
           Some (Inr (snd (parseErrorLoop c (sp_parseErrors ?p) ([], ?q))), w2)"
    by (rule typeCheckImpl_unsafe_result [OF u d])
  have s: "snd (parseErrorLoop c (sp_parseErrors ?p) ([], ?q)) =
           ?q\<lparr>sp_diagnostics := sp_diagnostics (snd (parseErrorLoop c (sp_parseErrors ?p) ([], ?q)))\<rparr>"
    by (rule parseErrorLoop_only_diagnostics)
  have "sp_types (snd (parseErrorLoop c (sp_parseErrors ?p) ([], ?q))) = Unsafe"
    by (subst s) simp
  moreover have "sp_typeErrors (snd (parseErrorLoop c (sp_parseErrors ?p) ([], ?q))) = []"
    by (subst s) (simp add: emptySyntaxPackage_def)
  ultimately show "\<exists>pkg. typeCheckImpl c getImport inputs w = Some (Inr pkg, w2) \<and>
             sp_types pkg = Unsafe \<and> sp_typeErrors pkg = []"
    using r by simp
qed

text \<open>
  The first call in a batch that was not asked to check \<open>unsafe\<close>; a second call in the
  world that the first one left; a first call in a batch that was asked to check \<open>unsafe\<close>
  and has skipped it; the full check of the package \<open>unsafe\<close> with no file.
\<close>

theorem unsafe_sentinel_witness:
  "getImportPackage 1 exampleCollaborators
     \<lparr>b_syntaxIndex = Map.empty, b_pre = None, b_post = None\<rparr> ''unsafe'' (freshWorld []) =
   Some ((Some Unsafe, None),
         (freshWorld [])\<lparr>importPackages := [''unsafe'' \<mapsto> Done (Some Unsafe, None)]\<rparr>)
   \<and> getImportPackage 1 exampleCollaborators
     \<lparr>b_syntaxIndex = [''unsafe'' \<mapsto> 0], b_pre = None, b_post = None\<rparr> ''unsafe''
       ((freshWorld [])\<lparr>importPackages := [''unsafe'' \<mapsto> Done (Some Unsafe, None)]\<rparr>) =
   Some ((Some Unsafe, None),
         (freshWorld [])\<lparr>importPackages := [''unsafe'' \<mapsto> Done (Some Unsafe, None)]\<rparr>)
   \<and> getImportPackage 1 exampleCollaborators
     \<lparr>b_syntaxIndex = [''unsafe'' \<mapsto> 0], b_pre = None, b_post = None\<rparr> ''unsafe''
       ((freshWorld [])\<lparr>syntaxPackages := [''unsafe'' \<mapsto> Done (None, None)]\<rparr>) =
   Some ((Some Unsafe, None),
         (freshWorld [])\<lparr>syntaxPackages := [''unsafe'' \<mapsto> Done (None, None)],
                          importPackages := [''unsafe'' \<mapsto> Done (Some Unsafe, None)]\<rparr>)
   \<and> map_option
       (\<lambda>(r, w'). case r of Inl e \<Rightarrow> None
                   | Inr pkg \<Rightarrow> Some (sp_types pkg, sp_typeErrors pkg, trace w'))
       (typeCheckImpl exampleCollaborators (\<lambda>i w. None)
          (TypeCheckInputs ''unsafe'' ''unsafe'' ''unsafe'' [] [] (StdSizes 8 8) [] [] [] True [] True)
          (freshWorld [])) =
     Some (Some (Unsafe, [], [EvParseFiles [], EvParseFiles []]))
   \<and> typeCheckImpl (exampleCollaborators\<lparr>check_Files := (\<lambda>cfg files tp w. None),
                                          typeErrorDiagnostics := (\<lambda>mm lt p e. Inl Canceled)\<rparr>)
       (\<lambda>i w. None)
       (TypeCheckInputs ''unsafe'' ''unsafe'' ''unsafe'' [] [] (StdSizes 8 8) [] [] [] True [] True)
       (freshWorld []) =
     typeCheckImpl exampleCollaborators (\<lambda>i w. None)
       (TypeCheckInputs ''unsafe'' ''unsafe'' ''unsafe'' [] [] (StdSizes 8 8) [] [] [] True [] True)
       (freshWorld [])"
proof -
  let ?b = "\<lparr>b_syntaxIndex = Map.empty, b_pre = None, b_post = None\<rparr>"
  let ?b' = "\<lparr>b_syntaxIndex = [''unsafe'' \<mapsto> (0::nat)], b_pre = None, b_post = None\<rparr>"
  let ?inputs = "TypeCheckInputs ''unsafe'' ''unsafe'' ''unsafe'' [] [] (StdSizes 8 8) [] [] [] True [] True"
  let ?w' = "(freshWorld [])\<lparr>importPackages := [''unsafe'' \<mapsto> Done (Some Unsafe, None)]\<rparr>"
  let ?w1 = "logEvent (EvParseFiles []) (freshWorld [])"
  let ?w2 = "logEvent (EvParseFiles []) ?w1"
  note T = unsafe_sentinel
  have h1: "b_syntaxIndex ?b ''unsafe'' = None \<and> importPackages (freshWorld []) ''unsafe'' = None"
    by (simp add: freshWorld_def)
  have c1: "getImportPackage 1 exampleCollaborators ?b ''unsafe'' (freshWorld []) =
            Some ((Some Unsafe, None), ?w')"
    using T [where b = ?b and w = "freshWorld []" and n = 0 and c = exampleCollaborators,
        THEN conjunct1] h1
    by (simp add: freshWorld_def)
  have h2: "importPackages ?w' ''unsafe'' = Some (Done (Some Unsafe, None)) \<and>
            (ctxErr ?w' = None \<or> \<not> selectDone exampleCollaborators ?w')"
    by (simp add: freshWorld_def)
  have c2: "getImportPackage 1 exampleCollaborators ?b' ''unsafe'' ?w' = Some ((Some Unsafe, None), ?w')"
    using T [where b = ?b' and w = ?w' and n = 0 and c = exampleCollaborators,
        THEN conjunct2, THEN conjunct2, THEN conjunct1, THEN mp, OF h2]
    by simp
  let ?ws = "(freshWorld [])\<lparr>syntaxPackages := [''unsafe'' \<mapsto> Done (None, None)]\<rparr>"
  have h3: "importPackages ?ws ''unsafe'' = None \<and> b_syntaxIndex ?b' ''unsafe'' = Some 0 \<and>
            (syntaxPackages ?ws ''unsafe'' = Some (Done (Some Unsafe, None)) \<or>
             syntaxPackages ?ws ''unsafe'' = Some (Done (None, None)))"
    by (simp add: freshWorld_def)
  have c2': "getImportPackage 1 exampleCollaborators ?b' ''unsafe'' ?ws =
      Some ((Some Unsafe, None),
            (freshWorld [])\<lparr>syntaxPackages := [''unsafe'' \<mapsto> Done (None, None)],
                             importPackages := [''unsafe'' \<mapsto> Done (Some Unsafe, None)]\<rparr>)"
    using T [where b = ?b' and w = ?ws and n = 0 and c = exampleCollaborators and i = 0,
        THEN conjunct2, THEN conjunct1, THEN mp, OF h3]
    by (simp add: freshWorld_def)
  have c3: "typeCheckImpl (exampleCollaborators\<lparr>check_Files := (\<lambda>cfg files tp w. None),
                                          typeErrorDiagnostics := (\<lambda>mm lt p e. Inl Canceled)\<rparr>)
              (\<lambda>i w. None) ?inputs (freshWorld []) =
            typeCheckImpl exampleCollaborators (\<lambda>i w. None) ?inputs (freshWorld [])"
    using T [where inputs = ?inputs and c = exampleCollaborators and w = "freshWorld []"
        and getImport = "\<lambda>i w. None" and chk = "\<lambda>cfg files tp w. None"
        and ted = "\<lambda>mm lt p e. Inl Canceled",
        THEN conjunct2, THEN conjunct2, THEN conjunct2, THEN conjunct1]
    by simp
  have h5: "tci_pkgPath ?inputs = ''unsafe'' \<and>
       call_parseFiles exampleCollaborators (tci_goFiles ?inputs) (freshWorld []) = Some (Inr [], ?w1) \<and>
       call_parseFiles exampleCollaborators (tci_compiledGoFiles ?inputs) ?w1 = Some (Inr [], ?w2)"
    by (simp add: call_parseFiles_def exampleCollaborators_def)
  from T [where inputs = ?inputs and c = exampleCollaborators and w = "freshWorld []"
        and getImport = "\<lambda>i w. None" and goFiles = "[]" and ?w1.0 = ?w1 and compiled = "[]"
        and ?w2.0 = ?w2,
        THEN conjunct2, THEN conjunct2, THEN conjunct2, THEN conjunct2, THEN conjunct2] h5
  obtain pkg where r: "typeCheckImpl exampleCollaborators (\<lambda>i w. None) ?inputs (freshWorld []) =
      Some (Inr pkg, ?w2)"
    by blast
  from T [where inputs = ?inputs and c = exampleCollaborators and w = "freshWorld []"
        and getImport = "\<lambda>i w. None" and pkg = pkg and w' = ?w2,
        THEN conjunct2, THEN conjunct2, THEN conjunct2, THEN conjunct2, THEN conjunct1] r
  have f: "sp_types pkg = Unsafe" "sp_typeErrors pkg = []"
    by simp_all
  have t: "trace ?w2 = [EvParseFiles [], EvParseFiles []]"
    by (simp add: logEvent_def freshWorld_def)
  have c4: "map_option
       (\<lambda>(r, w'). case r of Inl e \<Rightarrow> None
                   | Inr pkg \<Rightarrow> Some (sp_types pkg, sp_typeErrors pkg, trace w'))
       (typeCheckImpl exampleCollaborators (\<lambda>i w. None) ?inputs (freshWorld [])) =
     Some (Some (Unsafe, [], [EvParseFiles [], EvParseFiles []]))"
    by (simp add: r f t)
  from c1 c2 c2' c3 c4 show ?thesis by blast
qed

text \<open>
  Claim C9 as stated does not hold in two cases.  When \<open>unsafe\<close> is itself one of the
  packages that the batch was asked to check and has no future yet,
  \<open>getImportPackage\<close> hands the id to \<open>handleSyntaxPackage\<close>, which builds a package handle
  for it (and stores it in the snapshot) and parses its file lists before \<open>types.Unsafe\<close> is
  returned.  And when the context is cancelled and the future of \<open>unsafe\<close> exists (here it
  is completed with \<open>types.Unsafe\<close>), the \<open>select\<close> may take the case of the context: the
  call returns the error of the context and no package.
\<close>

theorem getImportPackage_unsafe_counterexample:
  "map_option (\<lambda>(r, w). (r, trace w, packages w ''unsafe'' \<noteq> None))
     (getImportPackage 3 exampleCollaborators
        \<lparr>b_syntaxIndex = [''unsafe'' \<mapsto> 0], b_pre = None, b_post = Some (\<lambda>i p w. Some ((), w))\<rparr>
        ''unsafe''
        (freshWorld [(''unsafe'', (leafMetadata ''unsafe'')\<lparr>md_GoFiles := [], md_CompiledGoFiles := []\<rparr>)])) =
   Some ((Some Unsafe, None),
         [EvBuildPackageHandle ''unsafe'', EvParseFiles [], EvParseFiles []], True)
   \<and> map_option fst
       (getImportPackage 1 exampleCollaborators
          \<lparr>b_syntaxIndex = Map.empty, b_pre = None, b_post = None\<rparr> ''unsafe''
          ((freshWorld [])\<lparr>ctxErr := Some Canceled,
                           importPackages := [''unsafe'' \<mapsto> Done (Some Unsafe, None)]\<rparr>)) =
     Some (None, Some Canceled)"
  by code_simp

section \<open>Properties of TypeCheck\<close>

text \<open>
  Claim C8.  \<open>TypeCheck\<close> called with the same id twice, for a package that is not
  active and whose check succeeds, returns a slice of two entries and a nil error, but one
  of the two entries is nil: the goroutine that finds the future of the other one returns
  its value without calling \<open>post\<close>.  This is so in whichever order the two goroutines
  run.
\<close>

theorem TypeCheck_duplicate_ids:
  "map_option (\<lambda>(r, w). (map (\<lambda>p. p \<noteq> None) (fst r), snd r))
     (TypeCheck 3 exampleCollaborators [''a'', ''a''] (freshWorld [(''a'', leafMetadata ''a'')])) =
   Some ([True, False], None)
   \<and> map_option (\<lambda>(r, w). (map (\<lambda>p. p \<noteq> None) (fst r), snd r))
     (TypeCheck 3 (exampleCollaborators\<lparr>schedule := (\<lambda>n. rev [0..<n])\<rparr>) [''a'', ''a'']
        (freshWorld [(''a'', leafMetadata ''a'')])) =
   Some ([False, True], None)"
  by code_simp

section \<open>Properties of the batch: failed dependencies\<close>













section \<open>Properties of the shared import graph\<close>

lemma volatilePackage_unfold:
  "volatilePackage meta ops i \<longleftrightarrow>
     i \<in> set ops \<or>
     (\<exists>m. meta i = Some m \<and> (\<exists>d \<in> snd ` set (md_DepsByPkgPath m). volatilePackage meta ops d))"
proof
  assume "volatilePackage meta ops i"
  then obtain q where q: "q \<in> set ops" "(i, q) \<in> (depEdges meta)\<^sup>*"
    by (auto simp: volatilePackage_def)
  from q(2) show "i \<in> set ops \<or>
     (\<exists>m. meta i = Some m \<and> (\<exists>d \<in> snd ` set (md_DepsByPkgPath m). volatilePackage meta ops d))"
  proof (cases rule: converse_rtranclE)
    case base
    with q(1) show ?thesis by simp
  next
    case (step d)
    from step(1) obtain m where "meta i = Some m" "d \<in> snd ` set (md_DepsByPkgPath m)"
      by (auto simp: depEdges_def)
    moreover from step(2) q(1) have "volatilePackage meta ops d"
      by (auto simp: volatilePackage_def)
    ultimately show ?thesis by blast
  qed
next
  assume "i \<in> set ops \<or>
     (\<exists>m. meta i = Some m \<and> (\<exists>d \<in> snd ` set (md_DepsByPkgPath m). volatilePackage meta ops d))"
  then show "volatilePackage meta ops i"
  proof
    assume "i \<in> set ops"
    then show ?thesis by (auto simp: volatilePackage_def)
  next
    assume "\<exists>m. meta i = Some m \<and> (\<exists>d \<in> snd ` set (md_DepsByPkgPath m). volatilePackage meta ops d)"
    then obtain m d q where "meta i = Some m" "d \<in> snd ` set (md_DepsByPkgPath m)"
      "q \<in> set ops" "(d, q) \<in> (depEdges meta)\<^sup>*"
      by (auto simp: volatilePackage_def)
    moreover from this have "(i, d) \<in> depEdges meta"
      by (auto simp: depEdges_def)
    ultimately have "(i, q) \<in> (depEdges meta)\<^sup>*"
      by (meson converse_rtrancl_into_rtrancl)
    with \<open>q \<in> set ops\<close> show ?thesis by (auto simp: volatilePackage_def)
  qed
qed

lemma memoSound_update:
  "memoSound meta ops vd \<Longrightarrow> (v \<longleftrightarrow> volatilePackage meta ops i) \<Longrightarrow>
   memoSound meta ops (AList.update i v vd)"
  by (auto simp: memoSound_def update_conv')

lemma isVolatile_volatileLoop_sound:
  "(\<forall>v vd'. memoSound meta ops vd \<longrightarrow> isVolatile n meta ops vd i = Some (v, vd') \<longrightarrow>
      memoSound meta ops vd' \<and> (v \<longleftrightarrow> volatilePackage meta ops i) \<and> map_of vd' i \<noteq> None \<and>
      (\<forall>k. map_of vd k \<noteq> None \<longrightarrow> map_of vd' k \<noteq> None))"
  "(\<forall>v vd'. memoSound meta ops vd \<longrightarrow> volatileLoop n meta ops vd ds = Some (v, vd') \<longrightarrow>
      memoSound meta ops vd' \<and> (v \<longleftrightarrow> (\<exists>d \<in> set ds. volatilePackage meta ops d)) \<and>
      (\<forall>k. map_of vd k \<noteq> None \<longrightarrow> map_of vd' k \<noteq> None))"
proof (induction n meta ops vd i and n meta ops vd ds rule: isVolatile_volatileLoop.induct)
  case (1 meta ops vd i)
  then show ?case by simp
next
  case (2 n meta ops vd i)
  show ?case
  proof (intro allI impI)
    fix v vd'
    assume s: "memoSound meta ops vd" and r: "isVolatile (Suc n) meta ops vd i = Some (v, vd')"
    show "memoSound meta ops vd' \<and> (v \<longleftrightarrow> volatilePackage meta ops i) \<and> map_of vd' i \<noteq> None \<and>
          (\<forall>k. map_of vd k \<noteq> None \<longrightarrow> map_of vd' k \<noteq> None)"
    proof (cases "map_of vd i")
      case (Some u)
      with r have "v = u" "vd' = vd" by simp_all
      with s Some show ?thesis by (auto simp: memoSound_def)
    next
      case None
      show ?thesis
      proof (cases "i \<in> set ops")
        case True
        with r None have e: "v = True" "vd' = AList.update i True vd" by simp_all
        from True have "volatilePackage meta ops i"
          by (subst volatilePackage_unfold) simp
        with s e show ?thesis
          by (auto simp: memoSound_update update_conv')
      next
        case False
        show ?thesis
        proof (cases "meta i")
          case nometa: None
          with r None False have e: "v = False" "vd' = AList.update i False vd" by simp_all
          from False nometa have "\<not> volatilePackage meta ops i"
            by (subst volatilePackage_unfold) simp
          with s e show ?thesis
            by (auto simp: memoSound_update update_conv')
        next
          case (Some m)
          with r None False obtain vd1 where
            l: "volatileLoop n meta ops vd (map snd (md_DepsByPkgPath m)) = Some (v, vd1)"
            and e: "vd' = AList.update i v vd1"
            by (auto split: option.splits prod.splits)
          from "2.IH" [OF None False Some] s l
          have ih: "memoSound meta ops vd1"
            "v \<longleftrightarrow> (\<exists>d \<in> set (map snd (md_DepsByPkgPath m)). volatilePackage meta ops d)"
            "\<forall>k. map_of vd k \<noteq> None \<longrightarrow> map_of vd1 k \<noteq> None"
            by blast+
          from ih(2) False Some have "v \<longleftrightarrow> volatilePackage meta ops i"
            by (subst volatilePackage_unfold) simp
          with ih e show ?thesis
            by (auto simp: memoSound_update update_conv')
        qed
      qed
    qed
  qed
next
  case (3 n meta ops vd)
  then show ?case by simp
next
  case (4 n meta ops vd dep deps)
  show ?case
  proof (intro allI impI)
    fix v vd'
    assume s: "memoSound meta ops vd" and r: "volatileLoop n meta ops vd (dep # deps) = Some (v, vd')"
    from r obtain u vd1 where h: "isVolatile n meta ops vd dep = Some (u, vd1)"
      by (auto split: option.splits)
    from "4.IH"(1) s h
    have ih1: "memoSound meta ops vd1" "u \<longleftrightarrow> volatilePackage meta ops dep"
      "\<forall>k. map_of vd k \<noteq> None \<longrightarrow> map_of vd1 k \<noteq> None"
      by blast+
    show "memoSound meta ops vd' \<and> (v \<longleftrightarrow> (\<exists>d \<in> set (dep # deps). volatilePackage meta ops d)) \<and>
          (\<forall>k. map_of vd k \<noteq> None \<longrightarrow> map_of vd' k \<noteq> None)"
    proof (cases u)
      case True
      with r h have "v = True" "vd' = vd1" by simp_all
      with ih1 True show ?thesis by auto
    next
      case False
      with r h have l: "volatileLoop n meta ops vd1 deps = Some (v, vd')" by simp
      from False have uF: "u = False" by simp
      from "4.IH"(2) [OF h refl uF] ih1(1) l
      have "memoSound meta ops vd'" "v \<longleftrightarrow> (\<exists>d \<in> set deps. volatilePackage meta ops d)"
        "\<forall>k. map_of vd1 k \<noteq> None \<longrightarrow> map_of vd' k \<noteq> None"
        by blast+
      with ih1 False show ?thesis by auto
    qed
  qed
qed

lemma markVolatile_sound:
  "memoSound meta ops vd \<Longrightarrow> markVolatile n meta ops vd ds = Some vd' \<Longrightarrow>
   memoSound meta ops vd' \<and> (\<forall>d \<in> set ds. map_of vd' d \<noteq> None) \<and>
   (\<forall>k. map_of vd k \<noteq> None \<longrightarrow> map_of vd' k \<noteq> None)"
proof (induction ds arbitrary: vd)
  case Nil
  then show ?case by simp
next
  case (Cons d ds)
  from Cons.prems(2) obtain v vd1 where h: "isVolatile n meta ops vd d = Some (v, vd1)"
    and l: "markVolatile n meta ops vd1 ds = Some vd'"
    by (auto split: option.splits prod.splits)
  from isVolatile_volatileLoop_sound(1) [of meta ops vd n d] Cons.prems(1) h
  have s1: "memoSound meta ops vd1" "map_of vd1 d \<noteq> None"
    "\<forall>k. map_of vd k \<noteq> None \<longrightarrow> map_of vd1 k \<noteq> None"
    by blast+
  from Cons.IH [OF s1(1) l] s1 show ?case by auto
qed

lemma deleteVolatile_subset: "fst ` set (deleteVolatile vd deps) \<subseteq> fst ` set deps"
  unfolding deleteVolatile_def
proof (induction vd arbitrary: deps)
  case Nil
  then show ?case by simp
next
  case (Cons e vd)
  obtain i v where e: "e = (i, v)" by (cases e)
  show ?case
  proof (cases v)
    case True
    have "fst ` set (fold (\<lambda>(i, volatile) ds. if volatile then AList.delete i ds else ds) vd
                       (AList.delete i deps)) \<subseteq> fst ` set (AList.delete i deps)"
      by (rule Cons.IH)
    also have "\<dots> \<subseteq> fst ` set deps"
      by (rule dom_delete_subset)
    finally show ?thesis by (simp add: e True)
  next
    case False
    then show ?thesis using Cons.IH [of deps] by (simp add: e)
  qed
qed

lemma deleteVolatile_deleted:
  "(k, True) \<in> set vd \<Longrightarrow> k \<notin> fst ` set (deleteVolatile vd deps)"
proof (induction vd arbitrary: deps)
  case Nil
  then show ?case by simp
next
  case (Cons e vd)
  obtain i v where e: "e = (i, v)" by (cases e)
  have step: "deleteVolatile (e # vd) deps =
              deleteVolatile vd (if v then AList.delete i deps else deps)"
    by (simp add: deleteVolatile_def e)
  show ?case
  proof (cases "e = (k, True)")
    case True
    with e have "deleteVolatile (e # vd) deps = deleteVolatile vd (AList.delete k deps)"
      by (simp add: deleteVolatile_def)
    moreover have "k \<notin> fst ` set (AList.delete k deps)"
      by (rule delete_notin_dom)
    ultimately show ?thesis
      using deleteVolatile_subset [of vd "AList.delete k deps"] by auto
  next
    case False
    with Cons.prems have "(k, True) \<in> set vd" by simp
    from Cons.IH [OF this] show ?thesis by (simp add: step)
  qed
qed

lemma openPackagesOf_iff: "i \<in> set (openPackagesOf w) \<longleftrightarrow> isOpen w i"
proof -
  have inner: "set (fold List.insert xs acc) = set xs \<union> set acc" for xs acc :: "PackageID list"
    by (induction xs arbitrary: acc) auto
  have outer: "set (fold (\<lambda>uri openPackages.
             fold List.insert (case s_meta_ids w uri of None \<Rightarrow> [] | Some ids \<Rightarrow> ids) openPackages)
          us acc) =
        set acc \<union> {i. \<exists>uri \<in> set us. \<exists>ids. s_meta_ids w uri = Some ids \<and> i \<in> set ids}"
    for us acc
    by (induction us arbitrary: acc) (auto simp: inner split: option.splits)
  show ?thesis
    by (simp add: openPackagesOf_def outer isOpen_def)
qed

lemma isVolatile_volatileLoop_returns:
  "(\<forall>(a, b) \<in> depEdges meta. rank b < rank a) \<longrightarrow> rank i < n \<longrightarrow>
     isVolatile n meta ops vd i \<noteq> None"
  "(\<forall>(a, b) \<in> depEdges meta. rank b < rank a) \<longrightarrow> (\<forall>d \<in> set ds. rank d < n) \<longrightarrow>
     volatileLoop n meta ops vd ds \<noteq> None"
  for rank :: "PackageID \<Rightarrow> nat"
proof (induction n meta ops vd i and n meta ops vd ds rule: isVolatile_volatileLoop.induct)
  case (1 meta ops vd i)
  then show ?case by simp
next
  case (2 n meta ops vd i)
  show ?case
  proof (intro impI)
    assume r: "\<forall>(a, b) \<in> depEdges meta. rank b < rank a" and b: "rank i < Suc n"
    show "isVolatile (Suc n) meta ops vd i \<noteq> None"
    proof (cases "map_of vd i = None \<and> i \<notin> set ops \<and> meta i \<noteq> None")
      case False
      then show ?thesis by (auto split: option.splits)
    next
      case True
      then obtain m where m: "meta i = Some m" by auto
      have "\<forall>d \<in> set (map snd (md_DepsByPkgPath m)). rank d < n"
      proof
        fix d
        assume "d \<in> set (map snd (md_DepsByPkgPath m))"
        with m have "(i, d) \<in> depEdges meta" by (auto simp: depEdges_def)
        with r have "rank d < rank i" by auto
        with b show "rank d < n" by simp
      qed
      with "2.IH" [of m] True m r
      have "volatileLoop n meta ops vd (map snd (md_DepsByPkgPath m)) \<noteq> None" by simp
      with True m show ?thesis by (auto split: option.splits)
    qed
  qed
next
  case (3 n meta ops vd)
  then show ?case by simp
next
  case (4 n meta ops vd dep deps)
  show ?case
  proof (intro impI)
    assume r: "\<forall>(a, b) \<in> depEdges meta. rank b < rank a"
      and b: "\<forall>d \<in> set (dep # deps). rank d < n"
    from "4.IH"(1) r b obtain u vd1 where h: "isVolatile n meta ops vd dep = Some (u, vd1)"
      by auto
    show "volatileLoop n meta ops vd (dep # deps) \<noteq> None"
    proof (cases u)
      case True
      with h show ?thesis by simp
    next
      case False
      then have uF: "u = False" by simp
      from "4.IH"(2) [OF h refl uF] r b have "volatileLoop n meta ops vd1 deps \<noteq> None" by simp
      with h False show ?thesis by simp
    qed
  qed
qed

lemma markVolatile_returns:
  fixes rank :: "PackageID \<Rightarrow> nat"
  assumes "\<forall>(a, b) \<in> depEdges meta. rank b < rank a" and "\<forall>d \<in> set ds. rank d < n"
  shows "markVolatile n meta ops vd ds \<noteq> None"
  using assms(2)
proof (induction ds arbitrary: vd)
  case Nil
  then show ?case by simp
next
  case (Cons d ds)
  from isVolatile_volatileLoop_returns(1) [of meta rank d n ops vd] assms(1) Cons.prems
  obtain v vd1 where "isVolatile n meta ops vd d = Some (v, vd1)" by auto
  with Cons.IH [of vd1] Cons.prems show ?case by simp
qed

text \<open>
  Claim C6.  When \<open>resolveImportGraph\<close> gets as far as the final \<open>deps\<close> map, no
  package that remains in it is volatile: from an id in \<open>deps\<close> no open package can be
  reached through \<open>DepsByPkgPath\<close> edges in zero or more steps, so the package itself is
  not open and none of the packages it depends on, directly or not, is open.  And it does
  get that far whenever the handles can be built and the dependency graph has no cycle
  (every edge lowers a rank that the recursion bound exceeds).
\<close>

theorem resolveImportGraph_deps_not_volatile:
  fixes rank :: "PackageID \<Rightarrow> nat"
  shows "(resolveImportGraph_deps n build w = Some (Inr deps, w') \<longrightarrow>
       (\<forall>i \<in> fst ` set deps. \<forall>q. (i, q) \<in> (depEdges (s_meta w))\<^sup>* \<longrightarrow> \<not> isOpen w q))
   \<and> ((\<forall>(a, b) \<in> depEdges (s_meta w). rank b < rank a) \<and> (\<forall>i. rank i < n) \<and>
       openDepsLoop build (s_meta w) (openPackagesOf w) [] w = Some (Inr deps0, w1) \<longrightarrow>
       (\<exists>deps. resolveImportGraph_deps n build w = Some (Inr deps, w1)))"
proof (intro conjI impI)
  assume a: "resolveImportGraph_deps n build w = Some (Inr deps, w')"
  let ?meta = "s_meta w" and ?ops = "openPackagesOf w"
  from a obtain deps1 vd where
    m: "markVolatile n ?meta ?ops [] (map fst deps1) = Some vd"
    and d: "deps = deleteVolatile vd deps1"
    by (auto simp: resolveImportGraph_deps_def Let_def split: option.splits sum.splits prod.splits)
  have s0: "memoSound ?meta ?ops []" by (simp add: memoSound_def)
  from markVolatile_sound [OF s0 m]
  have s: "memoSound ?meta ?ops vd" and all: "\<forall>k \<in> set (map fst deps1). map_of vd k \<noteq> None"
    by blast+
  show "\<forall>i \<in> fst ` set deps. \<forall>q. (i, q) \<in> (depEdges ?meta)\<^sup>* \<longrightarrow> \<not> isOpen w q"
  proof (intro ballI allI impI)
    fix i q
    assume i: "i \<in> fst ` set deps" and r: "(i, q) \<in> (depEdges ?meta)\<^sup>*"
    from i d deleteVolatile_subset [of vd deps1] have "i \<in> set (map fst deps1)" by auto
    with all obtain v where v: "map_of vd i = Some v" by auto
    have "\<not> v"
    proof
      assume v
      with v have "(i, True) \<in> set vd" by (auto dest: map_of_SomeD)
      from deleteVolatile_deleted [OF this, of deps1] i d show False by simp
    qed
    with s v have "\<not> volatilePackage ?meta ?ops i" by (auto simp: memoSound_def)
    with r have "q \<notin> set ?ops" by (auto simp: volatilePackage_def)
    then show "\<not> isOpen w q" by (simp add: openPackagesOf_iff)
  qed
next
  assume a: "(\<forall>(a, b) \<in> depEdges (s_meta w). rank b < rank a) \<and> (\<forall>i. rank i < n) \<and>
       openDepsLoop build (s_meta w) (openPackagesOf w) [] w = Some (Inr deps0, w1)"
  then have "markVolatile n (s_meta w) (openPackagesOf w) [] (map fst deps0) \<noteq> None"
    using markVolatile_returns [of "s_meta w" rank "map fst deps0" n] by blast
  with a show "\<exists>deps. resolveImportGraph_deps n build w = Some (Inr deps, w1)"
    by (auto simp: resolveImportGraph_deps_def Let_def)
qed

theorem resolveImportGraph_deps_not_volatile_witness:
  "map_option (\<lambda>(r, w). case r of Inl e \<Rightarrow> [] | Inr deps \<Rightarrow> map fst deps)
     (resolveImportGraph_deps 3 (buildPackageHandle 3 exampleCollaborators) abcWorld) = Some [''C'']
   \<and> \<not> isOpen abcWorld ''C'' \<and> isOpen abcWorld ''B'' \<and> isOpen abcWorld ''A''"
proof -
  let ?B = "buildPackageHandle 3 exampleCollaborators"
  let ?rank = "\<lambda>i. if i = ''A'' then 2 else if i = ''B'' then 1 else (0::nat)"
  note T = resolveImportGraph_deps_not_volatile [where n = 3 and build = ?B and w = abcWorld
      and rank = ?rank]
  have e: "case openDepsLoop ?B (s_meta abcWorld) (openPackagesOf abcWorld) [] abcWorld of
             Some (Inr deps0, w1) \<Rightarrow> True | _ \<Rightarrow> False"
    by code_simp
  from case_Some_Inr [OF e] obtain deps0 w1 where
    l: "openDepsLoop ?B (s_meta abcWorld) (openPackagesOf abcWorld) [] abcWorld = Some (Inr deps0, w1)"
    by blast
  have edges: "\<forall>(a, b) \<in> depEdges (s_meta abcWorld). ?rank b < ?rank a"
    by (auto simp: depEdges_def abcWorld_def freshWorld_def leafMetadata_def split: if_splits)
  have bound: "\<forall>i. ?rank i < 3" by simp
  from T [where ?deps0.0 = deps0 and ?w1.0 = w1, THEN conjunct2] edges bound l
  obtain deps where r: "resolveImportGraph_deps 3 ?B abcWorld = Some (Inr deps, w1)"
    by blast
  have v: "case resolveImportGraph_deps 3 ?B abcWorld of
             Some (Inr deps, w') \<Rightarrow> map fst deps = [''C''] | _ \<Rightarrow> False"
    by code_simp
  with r have k: "map fst deps = [''C'']" by simp
  then have "''C'' \<in> fst ` set deps"
    by (metis list.set_intros(1) set_map)
  with T [where deps = deps and w' = w1, THEN conjunct1] r
  have "\<not> isOpen abcWorld ''C''" by blast
  moreover have "isOpen abcWorld ''B''" "isOpen abcWorld ''A''"
    by (simp_all add: isOpen_def abcWorld_def)
  ultimately show ?thesis using r k by simp
qed

section \<open>Properties of concurrent calls of buildPackageHandle\<close>

lemma secondSection_cases:
  "(\<exists>st. secondSection meta s c i p = s\<lparr>sn_calls := (sn_calls s)(c \<mapsto> (i, st))\<rparr> \<and>
          (\<forall>q. st = Returned (Inr q) \<longrightarrow> sn_packages s i = Some q)) \<or>
   (sn_packages s i = None \<and>
    secondSection meta s c i p =
      s\<lparr>sn_packages := (sn_packages s)(i \<mapsto> p),
        sn_calls := (sn_calls s)(c \<mapsto> (i, Returned (Inr p)))\<rparr>)"
  by (auto simp: secondSection_def split: option.splits)

lemma buildStep_invariant:
  assumes "buildStep meta fm a s = Some s1" and "returnedAreCached s"
  shows "returnedAreCached s1 \<and> (\<forall>i p. sn_packages s i = Some p \<longrightarrow> sn_packages s1 i = Some p)"
proof (cases a)
  case (Call c i)
  with assms show ?thesis
    by (auto simp: returnedAreCached_def split: if_splits)
next
  case (Lookup c)
  with assms obtain i where c: "sn_calls s c = Some (i, Called)"
    and s1: "s1 = s\<lparr>sn_calls := (sn_calls s)(c \<mapsto> (i, firstSection meta (sn_packages s) i))\<rparr>"
    by (auto split: option.splits prod.splits callState.splits)
  have "firstSection meta (sn_packages s) i = Returned (Inr q) \<Longrightarrow> sn_packages s i = Some q" for q
    by (auto simp: firstSection_def split: option.splits)
  with assms(2) s1 show ?thesis
    by (auto simp: returnedAreCached_def split: if_splits)
next
  case (Inputs c r)
  with assms obtain i m where c: "sn_calls s c = Some (i, Building m)"
    by (auto split: option.splits prod.splits callState.splits)
  with assms Inputs show ?thesis
    by (auto simp: returnedAreCached_def split: sum.splits prod.splits if_splits option.splits)
next
  case (Insert c)
  with assms obtain i p where c: "sn_calls s c = Some (i, Built p)"
    and s1: "s1 = secondSection meta s c i p"
    by (auto split: option.splits prod.splits callState.splits)
  from secondSection_cases [of meta s c i p] show ?thesis
  proof
    assume "\<exists>st. secondSection meta s c i p = s\<lparr>sn_calls := (sn_calls s)(c \<mapsto> (i, st))\<rparr> \<and>
          (\<forall>q. st = Returned (Inr q) \<longrightarrow> sn_packages s i = Some q)"
    with assms(2) s1 show ?thesis
      by (auto simp: returnedAreCached_def split: if_splits)
  next
    assume n: "sn_packages s i = None \<and>
      secondSection meta s c i p =
        s\<lparr>sn_packages := (sn_packages s)(i \<mapsto> p),
          sn_calls := (sn_calls s)(c \<mapsto> (i, Returned (Inr p)))\<rparr>"
    have "sn_calls s c' = Some (i', Returned (Inr q)) \<Longrightarrow> i' \<noteq> i" for c' i' q
      using assms(2) n by (auto simp: returnedAreCached_def)
    with assms(2) n s1 show ?thesis
      by (auto simp: returnedAreCached_def split: if_splits)
  qed
qed

lemma runSteps_invariant:
  "runSteps meta fm acts s = Some s' \<Longrightarrow> returnedAreCached s \<Longrightarrow>
   returnedAreCached s' \<and> (\<forall>i p. sn_packages s i = Some p \<longrightarrow> sn_packages s' i = Some p)"
proof (induction acts arbitrary: s)
  case Nil
  then show ?case by simp
next
  case (Cons a acts)
  from Cons.prems(1) obtain s1 where a: "buildStep meta fm a s = Some s1"
    and r: "runSteps meta fm acts s1 = Some s'"
    by (auto split: option.splits)
  from buildStep_invariant [OF a Cons.prems(2)] Cons.IH [OF r] show ?case by blast
qed

text \<open>
  Claim C7.  Start from a snapshot on which no call of \<open>buildPackageHandle\<close> has been
  made, with any handles already in \<open>s.packages\<close>, and let any number of calls run,
  interleaved in any way.  Then any two calls for the same id that have returned a handle
  have returned the same handle (the same pointer), and an entry of \<open>s.packages\<close> is never
  replaced: the handle installed for an id stays the handle of that id.
\<close>

theorem buildPackageHandle_same_handle:
  assumes "runSteps meta fm acts s0 = Some s" and "sn_calls s0 = Map.empty"
  shows "(\<forall>c1 c2 i p1 p2.
            sn_calls s c1 = Some (i, Returned (Inr p1)) \<and>
            sn_calls s c2 = Some (i, Returned (Inr p2)) \<longrightarrow> p1 = p2)
         \<and> (\<forall>i p. sn_packages s0 i = Some p \<longrightarrow> sn_packages s i = Some p)
         \<and> (\<forall>acts' s' i p. runSteps meta fm acts' s = Some s' \<and> sn_packages s i = Some p \<longrightarrow>
               sn_packages s' i = Some p)"
proof -
  from assms(2) have "returnedAreCached s0"
    by (simp add: returnedAreCached_def)
  from runSteps_invariant [OF assms(1) this]
  have inv: "returnedAreCached s" and mono: "\<forall>i p. sn_packages s0 i = Some p \<longrightarrow> sn_packages s i = Some p"
    by blast+
  have "p1 = p2" if "sn_calls s c1 = Some (i, Returned (Inr p1))"
    and "sn_calls s c2 = Some (i, Returned (Inr p2))" for c1 c2 i p1 p2
    using inv that unfolding returnedAreCached_def by (metis option.inject)
  moreover have "sn_packages s' i = Some p"
    if "runSteps meta fm acts' s = Some s'" and "sn_packages s i = Some p" for acts' s' i p
    using runSteps_invariant [OF that(1) inv] that(2) by blast
  ultimately show ?thesis using mono by blast
qed

text \<open>
  The witness: two calls for \<open>a\<close> miss the cache together and each makes its own handle
  (at the addresses 10 and 11); the second one is first in the second locked section and
  installs its handle, the first one then returns that handle too, and so does a third
  call made afterwards.
\<close>

theorem buildPackageHandle_same_handle_witness:
  "map_option (\<lambda>s. (sn_calls s 0, sn_calls s 1, sn_calls s 2, sn_packages s ''a''))
     (runSteps (map_of [(''a'', leafMetadata ''a'')]) (stringers exampleCollaborators)
        [Call 0 ''a'', Call 1 ''a'', Lookup 0, Lookup 1,
         Inputs 0 (Inr (10, TypeCheckInputs ''a'' ''a'' ''a'' [] [] (StdSizes 8 8) [] [] [] True [] True)),
         Inputs 1 (Inr (11, TypeCheckInputs ''a'' ''a'' ''a'' [] [] (StdSizes 8 8) [] [] [] True [] True)),
         Insert 1, Insert 0, Call 2 ''a'', Lookup 2]
        \<lparr>sn_packages = Map.empty, sn_handles = Map.empty, sn_calls = Map.empty\<rparr>) =
   Some (Some (''a'', Returned (Inr 11)), Some (''a'', Returned (Inr 11)),
         Some (''a'', Returned (Inr 11)), Some 11)"
proof -
  let ?meta = "map_of [(''a'', leafMetadata ''a'')]"
  let ?fm = "stringers exampleCollaborators"
  let ?acts = "[Call 0 ''a'', Call 1 ''a'', Lookup 0, Lookup 1,
         Inputs 0 (Inr (10, TypeCheckInputs ''a'' ''a'' ''a'' [] [] (StdSizes 8 8) [] [] [] True [] True)),
         Inputs 1 (Inr (11, TypeCheckInputs ''a'' ''a'' ''a'' [] [] (StdSizes 8 8) [] [] [] True [] True)),
         Insert 1, Insert 0, Call 2 ''a'', Lookup 2]"
  let ?s0 = "\<lparr>sn_packages = Map.empty, sn_handles = Map.empty, sn_calls = Map.empty\<rparr>"
  have e: "case runSteps ?meta ?fm ?acts ?s0 of
             Some s \<Rightarrow> sn_calls s 1 = Some (''a'', Returned (Inr 11)) \<and>
                       sn_packages s ''a'' = Some 11 \<and>
                       (case sn_calls s 0 of Some (i, Returned (Inr p)) \<Rightarrow> i = ''a'' | _ \<Rightarrow> False) \<and>
                       (case sn_calls s 2 of Some (i, Returned (Inr p)) \<Rightarrow> i = ''a'' | _ \<Rightarrow> False)
           | None \<Rightarrow> False"
    by code_simp
  then obtain s where r: "runSteps ?meta ?fm ?acts ?s0 = Some s"
    and c1: "sn_calls s 1 = Some (''a'', Returned (Inr 11))"
    and k: "sn_packages s ''a'' = Some 11"
    and c0: "case sn_calls s 0 of Some (i, Returned (Inr p)) \<Rightarrow> i = ''a'' | _ \<Rightarrow> False"
    and c2: "case sn_calls s 2 of Some (i, Returned (Inr p)) \<Rightarrow> i = ''a'' | _ \<Rightarrow> False"
    by (cases "runSteps ?meta ?fm ?acts ?s0") auto
  from c0 obtain p0 where p0: "sn_calls s 0 = Some (''a'', Returned (Inr p0))"
    by (auto split: option.splits prod.splits callState.splits sum.splits)
  from c2 obtain p2 where p2: "sn_calls s 2 = Some (''a'', Returned (Inr p2))"
    by (auto split: option.splits prod.splits callState.splits sum.splits)
  have init: "sn_calls ?s0 = Map.empty" by simp
  note T = buildPackageHandle_same_handle [OF r init, THEN conjunct1]
  from T p0 c1 have "p0 = 11" by blast
  moreover from T p2 c1 have "p2 = 11" by blast
  ultimately show ?thesis using r c1 k p0 p2 by simp
qed

end
